theory Spec2Isabelle
  imports Main "HOL-Library.AList"
begin

section \<open>Strings\<close>

text \<open>
  The Python string operations that \<^verbatim>\<open>write_config.py\<close> uses: \<^verbatim>\<open>s.startswith(p)\<close>,
  \<^verbatim>\<open>s.endswith(p)\<close>, \<^verbatim>\<open>p in s\<close> and \<^verbatim>\<open>s.replace(old, new)\<close>. A string is a list of
  characters.
\<close>

fun startswith :: "string \<Rightarrow> string \<Rightarrow> bool" where
  "startswith s [] = True"
| "startswith [] (p # ps) = False"
| "startswith (c # cs) (p # ps) = (c = p \<and> startswith cs ps)"

definition endswith :: "string \<Rightarrow> string \<Rightarrow> bool" where
  "endswith s p = startswith (rev s) (rev p)"

text \<open>\<^verbatim>\<open>p in s\<close>: \<open>p\<close> occurs in \<open>s\<close> as a contiguous substring.\<close>

fun str_in :: "string \<Rightarrow> string \<Rightarrow> bool" where
  "str_in p [] = (p = [])"
| "str_in p (c # cs) = (startswith (c # cs) p \<or> str_in p cs)"

text \<open>
  \<^verbatim>\<open>s.replace(old, new)\<close>: every occurrence of \<open>old\<close>, found from the left and without
  overlap, is replaced. For the empty \<open>old\<close> Python puts \<open>new\<close> before every character
  and at the end.
\<close>

function replace :: "string \<Rightarrow> string \<Rightarrow> string \<Rightarrow> string" where
  "replace [] old new = (if old = [] then new else [])"
| "replace (c # cs) old new =
     (if old = [] then new @ c # replace cs old new
      else if startswith (c # cs) old then new @ replace (drop (length old) (c # cs)) old new
      else c # replace cs old new)"
  by pat_completeness auto
termination
  by (relation "measure (\<lambda>(s, old, new). length s)") auto

section \<open>Repository descriptors and the source adapters\<close>

text \<open>
  A descriptor is the dictionary that the adapters return: \<^verbatim>\<open>'url'\<close>, the optional
  \<^verbatim>\<open>'url-pattern'\<close> (with \<^verbatim>\<open>'base-url'\<close> and \<^verbatim>\<open>'anchor'\<close>) and \<^verbatim>\<open>'ms-between-poll'\<close>.
\<close>

record url_pattern =
  base_url :: string
  anchor :: string

record descriptor =
  url :: string
  pattern :: "url_pattern option"
  ms_between_poll :: int

text \<open>\<^verbatim>\<open>POLL = 90 * 60 * 1000\<close> (90 minutes) and \<^verbatim>\<open>DATA = '/srv/hound'\<close>.\<close>

definition POLL :: int where
  "POLL = 90 * 60 * 1000"

definition DATA :: string where
  "DATA = ''/srv/hound''"

definition phab_repo :: "string \<Rightarrow> descriptor" where
  "phab_repo name =
     \<lparr>url = ''https://phabricator.wikimedia.org/source/'' @ name,
      pattern = Some \<lparr>base_url = ''https://phabricator.wikimedia.org/source/'' @ name
                          @ ''/browse/master/{path};{rev}{anchor}'',
                       anchor = ''${line}''\<rparr>,
      ms_between_poll = POLL\<rparr>"

definition repo_info :: "string \<Rightarrow> descriptor" where
  "repo_info gerrit_name =
     \<lparr>url = ''https://gerrit-replica.wikimedia.org/r/'' @ gerrit_name @ ''.git'',
      pattern = Some \<lparr>base_url = ''https://gerrit.wikimedia.org/g/'' @ gerrit_name
                          @ ''/+/{rev}/{path}{anchor}'',
                       anchor = ''#{line}''\<rparr>,
      ms_between_poll = POLL\<rparr>"

definition bitbucket_repo :: "string \<Rightarrow> descriptor" where
  "bitbucket_repo bb_name =
     \<lparr>url = ''https://bitbucket.org/'' @ bb_name @ ''.git'',
      pattern = Some \<lparr>base_url = ''https://bitbucket.org/'' @ bb_name @ ''/src/{rev}/{path}'',
                       anchor = ''''\<rparr>,
      ms_between_poll = POLL\<rparr>"

text \<open>\<^verbatim>\<open>gh_repo(gh_name, host='github.com')\<close>; the host is always passed here.\<close>

definition gh_repo :: "string \<Rightarrow> string \<Rightarrow> descriptor" where
  "gh_repo gh_name host =
     \<lparr>url = ''https://'' @ host @ ''/'' @ gh_name,
      pattern = None,
      ms_between_poll = POLL\<rparr>"

definition gitlab_repo :: "string \<Rightarrow> descriptor" where
  "gitlab_repo gl_name = gh_repo gl_name ''gitlab.com''"

section \<open>Errors\<close>

text \<open>
  Every exception that the program lets escape is a value. \<open>RemoteFetchError\<close> stands for
  what \<^verbatim>\<open>requests.get\<close>, \<^verbatim>\<open>raise_for_status\<close> and the decoding of a response raise;
  \<open>RuntimeError\<close> carries the message of the two \<^verbatim>\<open>raise RuntimeError(...)\<close> of the source;
  \<open>KeyError\<close> is a missing dictionary key; \<open>CalledProcessError\<close> is the non-zero exit of a
  command run by \<^verbatim>\<open>subprocess.check_call\<close>; the remaining ones are the errors of the
  manifest parser.
\<close>

datatype error =
    RemoteFetchError string
  | RuntimeError string
  | KeyError string
  | CalledProcessError "string list" int
  | MissingSectionHeaderError string
  | DuplicateSectionError string
  | DuplicateOptionError string string
  | ParsingError string

section \<open>The manifest parser\<close>

text \<open>
  Modelled from the spec: \<^verbatim>\<open>configparser.ConfigParser\<close> is Python's library, not a file of the
  repository. The spec (section 6) gives the manifest as "sectioned key/value text (a minimal
  INI-like grammar: [section] headers, key = value lines)", and \<open>read_string\<close> reads this
  grammar the way the library does: lines are split at newlines and stripped; empty lines and
  lines starting with \<^verbatim>\<open>#\<close> or \<^verbatim>\<open>;\<close> are skipped; a line \<^verbatim>\<open>[name]\<close> opens a section (a second
  section of the same name is an error); any other line is split at its first \<^verbatim>\<open>=\<close> or \<^verbatim>\<open>:\<close>
  into a key (stripped, in lower case) and a value (stripped), must stand in a section and
  must not repeat a key of its section. The library's continuation lines, value interpolation
  and \<^verbatim>\<open>DEFAULT\<close> section are outside this grammar and are not modelled.
\<close>

type_synonym ini_section = "string \<times> (string \<times> string) list"

definition is_space :: "char \<Rightarrow> bool" where
  "is_space c = (c = CHR '' '' \<or> c = CHR 0x09 \<or> c = CHR 0x0A \<or> c = CHR 0x0D)"

definition strip :: "string \<Rightarrow> string" where
  "strip s = rev (dropWhile is_space (rev (dropWhile is_space s)))"

definition lower_char :: "char \<Rightarrow> char" where
  "lower_char c =
     (case map_of (zip ''ABCDEFGHIJKLMNOPQRSTUVWXYZ'' ''abcdefghijklmnopqrstuvwxyz'') c of
        Some l \<Rightarrow> l
      | None \<Rightarrow> c)"

fun split_lines :: "string \<Rightarrow> string \<Rightarrow> string list" where
  "split_lines [] cur = [rev cur]"
| "split_lines (c # cs) cur =
     (if c = CHR 0x0A then rev cur # split_lines cs [] else split_lines cs (c # cur))"

definition is_delim :: "char \<Rightarrow> bool" where
  "is_delim c = (c = CHR ''='' \<or> c = CHR '':'')"

text \<open>
  The header of a line \<^verbatim>\<open>[...]\<close>: the text between the opening bracket and the last closing
  one, when it is not empty.
\<close>

definition section_header :: "string \<Rightarrow> string option" where
  "section_header v =
     (case v of
        [] \<Rightarrow> None
      | c # cs \<Rightarrow>
          if c \<noteq> CHR ''['' then None
          else (case dropWhile (\<lambda>x. x \<noteq> CHR '']'') (rev cs) of
                  [] \<Rightarrow> None
                | b # r \<Rightarrow> if r = [] then None else Some (rev r)))"

fun read_lines :: "string list \<Rightarrow> ini_section list \<Rightarrow> error + ini_section list" where
  "read_lines [] secs = Inr (rev secs)"
| "read_lines (l # ls) secs =
     (let v = strip l in
      if v = [] \<or> hd v = CHR ''#'' \<or> hd v = CHR '';'' then read_lines ls secs
      else
        (case section_header v of
           Some name \<Rightarrow>
             if name \<in> set (map fst secs) then Inl (DuplicateSectionError name)
             else read_lines ls ((name, []) # secs)
         | None \<Rightarrow>
             (case secs of
                [] \<Rightarrow> Inl (MissingSectionHeaderError l)
              | (name, opts) # earlier \<Rightarrow>
                  (case dropWhile (\<lambda>x. \<not> is_delim x) v of
                     [] \<Rightarrow> Inl (ParsingError l)
                   | d # val \<Rightarrow>
                       (let key = map lower_char (strip (takeWhile (\<lambda>x. \<not> is_delim x) v)) in
                        if key = [] then Inl (ParsingError l)
                        else if key \<in> set (map fst opts) then Inl (DuplicateOptionError name key)
                        else read_lines ls ((name, opts @ [(key, strip val)]) # earlier))))))"

definition read_string :: "string \<Rightarrow> error + ini_section list" where
  "read_string text = read_lines (split_lines text []) []"

section \<open>The manifest resolver\<close>

text \<open>
  The loop of \<^verbatim>\<open>parse_gitmodules\<close> over \<^verbatim>\<open>config.sections()\<close>, with the list \<^verbatim>\<open>repos\<close> that it
  appends to. \<^verbatim>\<open>config[section]['url']\<close> raises \<open>KeyError\<close> when the section has no such
  key. The branches are tried in the order of the source.
\<close>

definition strip_git :: "string \<Rightarrow> string" where
  "strip_git u = (if endswith u ''.git'' then take (length u - 4) u else u)"

fun gitmodules_loop ::
  "ini_section list \<Rightarrow> (string \<times> descriptor) list \<Rightarrow> error + (string \<times> descriptor) list" where
  "gitmodules_loop [] repos = Inr repos"
| "gitmodules_loop ((sec, opts) # rest) repos =
     (case map_of opts ''url'' of
        None \<Rightarrow> Inl (KeyError ''url'')
      | Some u0 \<Rightarrow>
          (let u = strip_git u0 in
           if str_in ''github.com'' u then
             (let name = replace (replace u ''git@github.com:'' '''') ''https://github.com/'' ''''
              in gitmodules_loop rest (repos @ [(name, gh_repo name ''github.com'')]))
           else if str_in ''bitbucket.org'' u then
             (let name = replace u ''https://bitbucket.org/'' ''''
              in gitmodules_loop rest (repos @ [(name, bitbucket_repo name)]))
           else if str_in ''gitlab.com'' u then
             (let name = replace u ''https://gitlab.com/'' ''''
              in gitmodules_loop rest (repos @ [(name, gitlab_repo name)]))
           else if str_in ''invent.kde.org'' u then
             (let name = replace u ''https://invent.kde.org/'' ''''
              in gitmodules_loop rest (repos @ [(name, gh_repo name ''invent.kde.org'')]))
           else if str_in ''phabricator.nichework.com'' u then
             gitmodules_loop rest repos
           else Inl (RuntimeError (''Unsure how to handle URL: '' @ u))))"

text \<open>
  The body of \<^verbatim>\<open>parse_gitmodules\<close> after the fetch: the manifest text is parsed and the
  sections are resolved.
\<close>

definition resolve_manifest :: "string \<Rightarrow> error + (string \<times> descriptor) list" where
  "resolve_manifest text =
     (case read_string text of
        Inl e \<Rightarrow> Inl e
      | Inr secs \<Rightarrow> gitmodules_loop secs [])"

section \<open>Remote services, the process manager and the state of a run\<close>

text \<open>
  The remote services are inputs of a run. \<open>extdist\<close> is what the program reads of the answer
  of the wiki API, \<^verbatim>\<open>data['query']['extdistrepos']\<close> with its \<^verbatim>\<open>'extensions'\<close> and
  \<^verbatim>\<open>'skins'\<close> lists; \<open>settings\<close> is what it reads of the settings document,
  \<^verbatim>\<open>_settings_yaml()['bundles']\<close> with its \<^verbatim>\<open>'base'\<close> and \<^verbatim>\<open>'wmf_core'\<close> lists. A key that
  the answer lacks is \<open>None\<close>, and reading it raises \<open>KeyError\<close>.
\<close>

record extdist =
  listed_extensions :: "string list option"
  listed_skins :: "string list option"

record settings =
  bundle_base :: "string list option"
  bundle_wmf_core :: "string list option"

text \<open>
  A world fixes what every remote request and every command answers: the wiki API
  (\<^verbatim>\<open>get_extdist_repos\<close>), a raw file by its URL (\<^verbatim>\<open>parse_gitmodules\<close>), the settings document
  (\<^verbatim>\<open>_get_gerrit_file\<close> and \<^verbatim>\<open>yaml.safe_load\<close>), the Gerrit project listing by prefix, as
  pairs of a project and its state (\<^verbatim>\<open>gerrit_prefix_list\<close>), and the exit code of a command
  given to \<^verbatim>\<open>subprocess.check_call\<close>. \<open>Inl\<close> is a request that fails.
\<close>

record world =
  extdist_api :: "error + extdist"
  raw_file :: "string \<Rightarrow> error + string"
  settings_doc :: "error + settings"
  gerrit_projects :: "string \<Rightarrow> error + (string \<times> string) list"
  exit_code :: "string list \<Rightarrow> int"

datatype query =
    ExtDistRepos
  | RawFile string
  | GerritFile string string
  | GerritProjects string

datatype event =
    Fetch query
  | Mkdir string
  | ReadFile string
  | WriteFile string
  | Run "string list"

text \<open>The configuration that is written: the fixed settings and \<^verbatim>\<open>conf['repos']\<close>.\<close>

record conf =
  max_concurrent_indexers :: int
  dbpath :: string
  detect_ref :: bool
  repos :: "(string \<times> descriptor) list"

text \<open>
  The state that the program changes: the three \<^verbatim>\<open>functools.lru_cache\<close> caches (they hold
  the results of calls that returned, by argument), the configuration files and directories
  under \<^verbatim>\<open>/srv/hound\<close>, and the trace of the requests, file operations and commands
  performed so far, the latest last. The data directory is taken to exist and to be
  writable, the files in it to hold configurations, and \<^verbatim>\<open>systemctl\<close> to be installed; the
  messages that the program prints are left out.
\<close>

record run_state =
  extdist_cache :: "extdist option"
  gitmodules_cache :: "string \<Rightarrow> (string \<times> descriptor) list option"
  settings_cache :: "settings option"
  files :: "string \<Rightarrow> conf option"
  dirs :: "string set"
  events :: "event list"

definition emit :: "event \<Rightarrow> run_state \<Rightarrow> run_state" where
  "emit ev s = s\<lparr>events := events s @ [ev]\<rparr>"

section \<open>The remote queries\<close>

definition get_extdist_repos :: "world \<Rightarrow> run_state \<Rightarrow> (error + extdist) \<times> run_state" where
  "get_extdist_repos w s =
     (case extdist_cache s of
        Some data \<Rightarrow> (Inr data, s)
      | None \<Rightarrow>
          (let s1 = emit (Fetch ExtDistRepos) s in
           case extdist_api w of
             Inl e \<Rightarrow> (Inl e, s1)
           | Inr data \<Rightarrow> (Inr data, s1\<lparr>extdist_cache := Some data\<rparr>)))"

definition parse_gitmodules ::
  "world \<Rightarrow> string \<Rightarrow> run_state \<Rightarrow> (error + (string \<times> descriptor) list) \<times> run_state" where
  "parse_gitmodules w u s =
     (case gitmodules_cache s u of
        Some rs \<Rightarrow> (Inr rs, s)
      | None \<Rightarrow>
          (let s1 = emit (Fetch (RawFile u)) s in
           case raw_file w u of
             Inl e \<Rightarrow> (Inl e, s1)
           | Inr text \<Rightarrow>
               (case resolve_manifest text of
                  Inl e \<Rightarrow> (Inl e, s1)
                | Inr rs \<Rightarrow> (Inr rs, s1\<lparr>gitmodules_cache := (gitmodules_cache s1)(u \<mapsto> rs)\<rparr>))))"

text \<open>\<^verbatim>\<open>_settings_yaml\<close>, with the one call of \<^verbatim>\<open>_get_gerrit_file\<close> that it makes.\<close>

definition settings_yaml :: "world \<Rightarrow> run_state \<Rightarrow> (error + settings) \<times> run_state" where
  "settings_yaml w s =
     (case settings_cache s of
        Some d \<Rightarrow> (Inr d, s)
      | None \<Rightarrow>
          (let s1 = emit (Fetch (GerritFile ''mediawiki/tools/release''
                                   ''make-release/settings.yaml'')) s in
           case settings_doc w of
             Inl e \<Rightarrow> (Inl e, s1)
           | Inr d \<Rightarrow> (Inr d, s1\<lparr>settings_cache := Some d\<rparr>)))"

text \<open>
  \<^verbatim>\<open>gerrit_prefix_list\<close> carries no \<^verbatim>\<open>lru_cache\<close> decorator: each call sends the request. The
  loop keeps the projects whose state is \<^verbatim>\<open>ACTIVE\<close>.
\<close>

definition active_repos :: "(string \<times> string) list \<Rightarrow> (string \<times> descriptor) list" where
  "active_repos data =
     fold (\<lambda>(repo, st) rs. if st \<noteq> ''ACTIVE'' then rs else AList.update repo (repo_info repo) rs)
       data []"

definition gerrit_prefix_list ::
  "world \<Rightarrow> string \<Rightarrow> run_state \<Rightarrow> (error + (string \<times> descriptor) list) \<times> run_state" where
  "gerrit_prefix_list w prefix s =
     (let s1 = emit (Fetch (GerritProjects prefix)) s in
      case gerrit_projects w prefix of
        Inl e \<Rightarrow> (Inl e, s1)
      | Inr data \<Rightarrow> (Inr (active_repos data), s1))"

definition bundled_repos :: "world \<Rightarrow> run_state \<Rightarrow> (error + string list) \<times> run_state" where
  "bundled_repos w s =
     (case settings_yaml w s of
        (Inl e, s1) \<Rightarrow> (Inl e, s1)
      | (Inr d, s1) \<Rightarrow>
          (case bundle_base d of
             None \<Rightarrow> (Inl (KeyError ''base''), s1)
           | Some names \<Rightarrow> (Inr names, s1)))"

definition wikimedia_deployed_repos ::
  "world \<Rightarrow> run_state \<Rightarrow> (error + string list) \<times> run_state" where
  "wikimedia_deployed_repos w s =
     (case settings_yaml w s of
        (Inl e, s1) \<Rightarrow> (Inl e, s1)
      | (Inr d, s1) \<Rightarrow>
          (case bundle_wmf_core d of
             None \<Rightarrow> (Inl (KeyError ''wmf_core''), s1)
           | Some names \<Rightarrow> (Inr names, s1)))"

section \<open>The profile composer\<close>

text \<open>The keyword arguments of \<^verbatim>\<open>make_conf\<close>, each \<^verbatim>\<open>False\<close> unless given.\<close>

record flags =
  core :: bool
  exts :: bool
  skins :: bool
  ooui :: bool
  operations :: bool
  armchairgm :: bool
  twn :: bool
  milkshake :: bool
  bundled :: bool
  vendor :: bool
  wikimedia :: bool
  pywikibot :: bool
  services :: bool
  libs :: bool
  analytics :: bool
  puppet :: bool
  shouthow :: bool
  schemas :: bool
  wmcs :: bool

definition no_flags :: flags where
  "no_flags =
     \<lparr>core = False, exts = False, skins = False, ooui = False, operations = False,
      armchairgm = False, twn = False, milkshake = False, bundled = False, vendor = False,
      wikimedia = False, pywikibot = False, services = False, libs = False,
      analytics = False, puppet = False, shouthow = False, schemas = False, wmcs = False\<rparr>"

text \<open>
  An assignment \<^verbatim>\<open>conf['repos'][name] = info\<close> is a write \<open>(name, info)\<close>. A dictionary keeps
  one entry per key, so a write to a name that is present replaces its descriptor;
  \<^verbatim>\<open>conf['repos'].update(d)\<close> performs the writes of \<open>d\<close>'s entries.
\<close>

type_synonym writes = "(string \<times> descriptor) list"

definition apply_writes :: "writes \<Rightarrow> (string \<times> descriptor) list \<Rightarrow> (string \<times> descriptor) list" where
  "apply_writes ws rs = fold (\<lambda>(k, v). AList.update k v) ws rs"

text \<open>
  An inclusion rule is one \<^verbatim>\<open>if\<close> block of \<^verbatim>\<open>make_conf\<close>: from the state it gives the writes
  that the block performs, in their order, or the error that the block raises.
\<close>

type_synonym rule = "run_state \<Rightarrow> (error + writes) \<times> run_state"

definition static :: "bool \<Rightarrow> writes \<Rightarrow> rule" where
  "static enabled ws s = (Inr (if enabled then ws else []), s)"

definition gerrit :: "string \<Rightarrow> string \<times> descriptor" where
  "gerrit name = (name, repo_info name)"

definition core_writes :: writes where
  "core_writes = [(''MediaWiki core'', repo_info ''mediawiki/core'')]"

definition pywikibot_writes :: writes where
  "pywikibot_writes = [(''Pywikibot'', repo_info ''pywikibot/core'')]"

definition ooui_writes :: writes where
  "ooui_writes = [(''OOUI'', repo_info ''oojs/ui'')]"

definition exts_rule :: "world \<Rightarrow> flags \<Rightarrow> extdist \<Rightarrow> rule" where
  "exts_rule w f data s =
     (if \<not> exts f then (Inr [], s)
      else
        (case listed_extensions data of
           None \<Rightarrow> (Inl (KeyError ''extensions''), s)
         | Some es \<Rightarrow>
             if es = [] then (Inl (RuntimeError ''Why are there no Gerrit extensions?''), s)
             else
               (case parse_gitmodules w
                  ''https://raw.githubusercontent.com/MWStake/nonwmf-extensions/master/.gitmodules'' s of
                  (Inl e, s1) \<Rightarrow> (Inl e, s1)
                | (Inr subs, s1) \<Rightarrow>
                    (Inr (map (\<lambda>ext. (''Extension:'' @ ext, repo_info (''mediawiki/extensions/'' @ ext))) es
                          @ [(''VisualEditor core'', repo_info ''VisualEditor/VisualEditor'')]
                          @ subs), s1))))"

definition skins_rule :: "world \<Rightarrow> flags \<Rightarrow> extdist \<Rightarrow> rule" where
  "skins_rule w f data s =
     (if \<not> skins f then (Inr [], s)
      else
        (case listed_skins data of
           None \<Rightarrow> (Inl (KeyError ''skins''), s)
         | Some ss \<Rightarrow>
             (case parse_gitmodules w
                ''https://raw.githubusercontent.com/MWStake/nonwmf-skins/master/.gitmodules'' s of
                (Inl e, s1) \<Rightarrow> (Inl e, s1)
              | (Inr subs, s1) \<Rightarrow>
                  (Inr (map (\<lambda>skin. (''Skin:'' @ skin, repo_info (''mediawiki/skins/'' @ skin))) ss
                        @ subs), s1))))"

definition puppet_writes :: writes where
  "puppet_writes =
     [(''Wikimedia Puppet'', repo_info ''operations/puppet''),
      gerrit ''labs/private'']"

definition instance_puppet_writes :: writes where
  "instance_puppet_writes =
     [gerrit ''cloud/instance-puppet'',
      gerrit ''cloud/instance-puppet-dev'']"

definition operations_writes :: writes where
  "operations_writes =
     [(''Wikimedia DNS'', repo_info ''operations/dns''),
      (''netbox DNS'', phab_repo ''netbox-exported-dns''),
      (''Wikimedia MediaWiki config'', repo_info ''operations/mediawiki-config''),
      (''scap'', repo_info ''mediawiki/tools/scap''),
      (''Wikimedia continuous integration config'', repo_info ''integration/config''),
      (''Blubber'', repo_info ''blubber''),
      (''pipelinelib'', repo_info ''integration/pipelinelib''),
      (''MediaWiki Vagrant'', repo_info ''mediawiki/vagrant''),
      gerrit ''operations/cookbooks'',
      gerrit ''operations/deployment-charts'',
      gerrit ''operations/software'',
      gerrit ''operations/software/conftool'',
      gerrit ''operations/software/spicerack'',
      gerrit ''operations/software/purged'',
      gerrit ''performance/arc-lamp'',
      gerrit ''performance/asoranking'',
      gerrit ''performance/bttostatsv'',
      gerrit ''performance/coal'',
      gerrit ''performance/docroot'',
      gerrit ''performance/fresnel'',
      gerrit ''performance/mobile-synthetic-monitoring-tests'',
      gerrit ''performance/navtiming'',
      gerrit ''performance/synthetic-monitoring-tests'',
      gerrit ''performance/WikimediaDebug'']"

definition armchairgm_writes :: writes where
  "armchairgm_writes = [(''ArmchairGM'', gh_repo ''mary-kate/ArmchairGM'' ''github.com'')]"

definition twn_writes :: writes where
  "twn_writes = [(''translatewiki.net'', repo_info ''translatewiki'')]"

definition milkshake_writes :: writes where
  "milkshake_writes =
     map (\<lambda>ms_repo. (ms_repo, gh_repo (''wikimedia/'' @ ms_repo) ''github.com''))
       [''jquery.uls'', ''jquery.ime'', ''jquery.webfonts'', ''jquery.i18n'', ''language-data'']"

definition bundled_rule :: "world \<Rightarrow> flags \<Rightarrow> rule" where
  "bundled_rule w f s =
     (if \<not> bundled f then (Inr [], s)
      else
        (case bundled_repos w s of
           (Inl e, s1) \<Rightarrow> (Inl e, s1)
         | (Inr names, s1) \<Rightarrow> (Inr (map gerrit names), s1)))"

definition wikimedia_rule :: "world \<Rightarrow> flags \<Rightarrow> rule" where
  "wikimedia_rule w f s =
     (if \<not> wikimedia f then (Inr [], s)
      else
        (case wikimedia_deployed_repos w s of
           (Inl e, s1) \<Rightarrow> (Inl e, s1)
         | (Inr names, s1) \<Rightarrow>
             (Inr (map gerrit names
                   @ [(''Wikimedia MediaWiki config'', repo_info ''operations/mediawiki-config''),
                      (''WikimediaDebug'', repo_info ''performance/WikimediaDebug'')]), s1)))"

definition vendor_writes :: writes where
  "vendor_writes = [gerrit ''mediawiki/vendor'']"

definition services_rule :: "world \<Rightarrow> flags \<Rightarrow> rule" where
  "services_rule w f s =
     (if \<not> services f then (Inr [], s)
      else
        (case gerrit_prefix_list w ''mediawiki/services/'' s of
           (Inl e, s1) \<Rightarrow> (Inl e, s1)
         | (Inr found, s1) \<Rightarrow>
             (Inr (found
                   @ [(''mwaddlink'', repo_info ''research/mwaddlink''),
                      (''Wikidata Query GUI'', repo_info ''wikidata/query/gui''),
                      (''Wikidata Query RDF'', repo_info ''wikidata/query/rdf'')]), s1)))"

definition libs_writes :: writes where
  "libs_writes =
     [gerrit ''AhoCorasick'',
      gerrit ''cdb'',
      gerrit ''CLDRPluralRuleParser'',
      gerrit ''HtmlFormatter'',
      gerrit ''IPSet'',
      gerrit ''RelPath'',
      gerrit ''RunningStat'',
      gerrit ''WrappedString'',
      (''MediaWiki CodeSniffer'', repo_info ''mediawiki/tools/codesniffer''),
      (''MediaWiki Phan'', repo_info ''mediawiki/tools/phan''),
      (''SecurityCheckPlugin'', repo_info ''mediawiki/tools/phan/SecurityCheckPlugin''),
      (''Purtle'', repo_info ''purtle''),
      gerrit ''wvui'',
      (''codex'', repo_info ''design/codex''),
      (''WikibaseDataModel'', gh_repo ''wmde/WikibaseDataModel'' ''github.com''),
      (''WikibaseDataModelSerialization'',
         gh_repo ''wmde/WikibaseDataModelSerialization'' ''github.com''),
      (''WikibaseDataModelServices'', gh_repo ''wmde/WikibaseDataModelServices'' ''github.com''),
      (''WikibaseInternalSerialization'',
         gh_repo ''wmde/WikibaseInternalSerialization'' ''github.com''),
      (''wikibase-termbox'', repo_info ''wikibase/termbox''),
      (''wikibase-vuejs-components'', repo_info ''wikibase/vuejs-components''),
      (''WikibaseDataValuesValueView'', repo_info ''data-values/value-view''),
      (''WikibaseJavascriptAPI'', repo_info ''wikibase/javascript-api''),
      (''WikibaseDataValuesJavaScript'', gh_repo ''wmde/DataValuesJavaScript'' ''github.com''),
      (''WikibaseSerializationJavaScript'',
         gh_repo ''wmde/WikibaseSerializationJavaScript'' ''github.com''),
      (''WikibaseDataModelJavaScript'',
         gh_repo ''wmde/WikibaseDataModelJavaScript'' ''github.com'')]"

definition libs_rule :: "world \<Rightarrow> flags \<Rightarrow> rule" where
  "libs_rule w f s =
     (if \<not> libs f then (Inr [], s)
      else
        (case gerrit_prefix_list w ''mediawiki/libs/'' s of
           (Inl e, s1) \<Rightarrow> (Inl e, s1)
         | (Inr found, s1) \<Rightarrow> (Inr (found @ libs_writes), s1)))"

text \<open>The rules \<^verbatim>\<open>analytics\<close> and \<^verbatim>\<open>schemas\<close>: one prefix listing each.\<close>

definition prefix_rule :: "world \<Rightarrow> bool \<Rightarrow> string \<Rightarrow> rule" where
  "prefix_rule w enabled prefix s =
     (if \<not> enabled then (Inr [], s) else gerrit_prefix_list w prefix s)"

definition shouthow_writes :: writes where
  "shouthow_writes = [(''ShoutHow'', gh_repo ''ashley/ShoutHow'' ''git.legoktm.com'')]"

definition wmcs_rule :: "world \<Rightarrow> flags \<Rightarrow> rule" where
  "wmcs_rule w f s =
     (if \<not> wmcs f then (Inr [], s)
      else
        (case gerrit_prefix_list w ''operations/software/tools-'' s of
           (Inl e, s1) \<Rightarrow> (Inl e, s1)
         | (Inr tools, s1) \<Rightarrow>
             (case gerrit_prefix_list w ''cloud/toolforge/'' s1 of
                (Inl e, s2) \<Rightarrow> (Inl e, s2)
              | (Inr toolforge, s2) \<Rightarrow>
                  (case gerrit_prefix_list w ''openstack/horizon/wmf-'' s2 of
                     (Inl e, s3) \<Rightarrow> (Inl e, s3)
                   | (Inr horizon, s3) \<Rightarrow> (Inr (tools @ toolforge @ horizon), s3)))))"

text \<open>
  The rules of \<^verbatim>\<open>make_conf\<close> that follow the call of \<^verbatim>\<open>get_extdist_repos\<close>, in the order of
  the source: \<^verbatim>\<open>exts\<close>, \<^verbatim>\<open>skins\<close>, \<^verbatim>\<open>puppet\<close>, \<^verbatim>\<open>puppet or wmcs\<close>, \<^verbatim>\<open>operations\<close>,
  \<^verbatim>\<open>armchairgm\<close>, \<^verbatim>\<open>twn\<close>, \<^verbatim>\<open>milkshake\<close>, \<^verbatim>\<open>bundled\<close>, \<^verbatim>\<open>wikimedia\<close>, \<^verbatim>\<open>vendor\<close>,
  \<^verbatim>\<open>services\<close>, \<^verbatim>\<open>libs\<close>, \<^verbatim>\<open>analytics\<close>, \<^verbatim>\<open>schemas\<close>, \<^verbatim>\<open>shouthow\<close>, \<^verbatim>\<open>wmcs\<close>.
\<close>

definition later_rules :: "world \<Rightarrow> flags \<Rightarrow> extdist \<Rightarrow> rule list" where
  "later_rules w f data =
     [exts_rule w f data,
      skins_rule w f data,
      static (puppet f) puppet_writes,
      static (puppet f \<or> wmcs f) instance_puppet_writes,
      static (operations f) operations_writes,
      static (armchairgm f) armchairgm_writes,
      static (twn f) twn_writes,
      static (milkshake f) milkshake_writes,
      bundled_rule w f,
      wikimedia_rule w f,
      static (vendor f) vendor_writes,
      services_rule w f,
      libs_rule w f,
      prefix_rule w (analytics f) ''analytics/'',
      prefix_rule w (schemas f) ''schemas/event/'',
      static (shouthow f) shouthow_writes,
      wmcs_rule w f]"

text \<open>Running rules one after the other; the first error ends the run of the rules.\<close>

fun run_rules :: "rule list \<Rightarrow> run_state \<Rightarrow> (error + writes list) \<times> run_state" where
  "run_rules [] s = (Inr [], s)"
| "run_rules (r # rs) s =
     (case r s of
        (Inl e, s1) \<Rightarrow> (Inl e, s1)
      | (Inr ws, s1) \<Rightarrow>
          (case run_rules rs s1 of
             (Inl e, s2) \<Rightarrow> (Inl e, s2)
           | (Inr wss, s2) \<Rightarrow> (Inr (ws # wss), s2)))"

text \<open>
  Lines 177 to 374 of \<^verbatim>\<open>make_conf\<close>: the writes of every rule, rule by rule in the order of
  the source. The rules \<^verbatim>\<open>core\<close>, \<^verbatim>\<open>pywikibot\<close> and \<^verbatim>\<open>ooui\<close> come first and make no request;
  then \<^verbatim>\<open>data = get_extdist_repos()\<close> is called, whatever the flags are.
\<close>

definition rule_writes :: "world \<Rightarrow> flags \<Rightarrow> run_state \<Rightarrow> (error + writes list) \<times> run_state" where
  "rule_writes w f s =
     (case get_extdist_repos w s of
        (Inl e, s1) \<Rightarrow> (Inl e, s1)
      | (Inr data, s1) \<Rightarrow>
          (case run_rules (later_rules w f data) s1 of
             (Inl e, s2) \<Rightarrow> (Inl e, s2)
           | (Inr wss, s2) \<Rightarrow>
               (Inr ([if core f then core_writes else [],
                      if pywikibot f then pywikibot_writes else [],
                      if ooui f then ooui_writes else []] @ wss), s2)))"

text \<open>
  The configuration that \<^verbatim>\<open>make_conf\<close> has built when its rules are through: the fixed
  settings, and the repositories left by all writes, applied in their order to the empty
  dictionary.
\<close>

definition build_conf :: "writes list \<Rightarrow> conf" where
  "build_conf wss =
     \<lparr>max_concurrent_indexers = 2, dbpath = ''data'', detect_ref = True,
      repos = apply_writes (concat wss) []\<rparr>"

section \<open>Change detection\<close>

text \<open>\<^verbatim>\<open>extract_urls\<close>: the set of the \<^verbatim>\<open>'url'\<close> of every value of \<^verbatim>\<open>conf['repos']\<close>.\<close>

definition extract_urls :: "conf \<Rightarrow> string set" where
  "extract_urls c = set (map (\<lambda>(name, repo). url repo) (repos c))"

text \<open>
  Lines 381 to 386 and 392 of \<^verbatim>\<open>make_conf\<close>: \<^verbatim>\<open>old\<close> is read from the previous file, or is
  the empty set when there is none, and the test is \<^verbatim>\<open>new != old\<close>.
\<close>

definition old_urls :: "conf option \<Rightarrow> string set" where
  "old_urls previous = (case previous of Some c \<Rightarrow> extract_urls c | None \<Rightarrow> {})"

definition has_changed :: "conf option \<Rightarrow> conf \<Rightarrow> bool" where
  "has_changed previous c = (extract_urls c \<noteq> old_urls previous)"

section \<open>Publishing a profile\<close>

record args =
  restart :: bool

definition dirname_of :: "string \<Rightarrow> string" where
  "dirname_of name = ''hound-'' @ name"

definition dest_of :: "string \<Rightarrow> string" where
  "dest_of name = DATA @ ''/'' @ dirname_of name @ ''/config.json''"

text \<open>\<^verbatim>\<open>subprocess.check_call\<close>: the command is run, and a non-zero exit code is an error.\<close>

definition check_call :: "world \<Rightarrow> string list \<Rightarrow> run_state \<Rightarrow> (error + unit) \<times> run_state" where
  "check_call w cmd s =
     (let s1 = emit (Run cmd) s in
      if exit_code w cmd = 0 then (Inr (), s1)
      else (Inl (CalledProcessError cmd (exit_code w cmd)), s1))"

text \<open>
  Lines 376 to 401 of \<^verbatim>\<open>make_conf\<close>. The directory is made when it is missing, the previous
  file is read when it exists, the new configuration is written, and with \<^verbatim>\<open>--restart\<close> a
  changed set of URLs leads to \<^verbatim>\<open>systemctl status\<close>, whose \<open>CalledProcessError\<close> is caught
  (the function returns), and then to \<^verbatim>\<open>systemctl restart\<close>, whose error is not caught.
\<close>

definition make_conf_publish ::
  "world \<Rightarrow> string \<Rightarrow> args \<Rightarrow> conf \<Rightarrow> run_state \<Rightarrow> (error + unit) \<times> run_state" where
  "make_conf_publish w name a c s =
     (let dirname = dirname_of name;
          directory = DATA @ ''/'' @ dirname;
          s1 = (if directory \<in> dirs s then s
                else (emit (Mkdir directory) s)\<lparr>dirs := insert directory (dirs s)\<rparr>);
          dest = directory @ ''/config.json'';
          previous = files s1 dest;
          s2 = (if previous = None then s1 else emit (ReadFile dest) s1);
          s3 = (emit (WriteFile dest) s2)\<lparr>files := (files s2)(dest \<mapsto> c)\<rparr>
      in
        if restart a then
          if has_changed previous c then
            (case check_call w [''systemctl'', ''status'', dirname] s3 of
               (Inl e, s4) \<Rightarrow> (Inr (), s4)
             | (Inr u, s4) \<Rightarrow> check_call w [''systemctl'', ''restart'', dirname] s4)
          else (Inr (), s3)
        else (Inr (), s3))"

definition make_conf ::
  "world \<Rightarrow> string \<Rightarrow> args \<Rightarrow> flags \<Rightarrow> run_state \<Rightarrow> (error + unit) \<times> run_state" where
  "make_conf w name a f s =
     (case rule_writes w f s of
        (Inl e, s1) \<Rightarrow> (Inl e, s1)
      | (Inr wss, s1) \<Rightarrow> make_conf_publish w name a (build_conf wss) s1)"

section \<open>The run\<close>

text \<open>The calls of \<^verbatim>\<open>make_conf\<close> in \<^verbatim>\<open>main\<close>, in their order.\<close>

definition profiles :: "(string \<times> flags) list" where
  "profiles =
     [(''search'',
         \<lparr>core = True, exts = True, skins = True, ooui = True, operations = True,
          armchairgm = False, twn = True, milkshake = False, bundled = False, vendor = False,
          wikimedia = False, pywikibot = True, services = True, libs = True,
          analytics = True, puppet = True, shouthow = False, schemas = True, wmcs = True\<rparr>),
      (''core'', no_flags\<lparr>core := True\<rparr>),
      (''pywikibot'', no_flags\<lparr>pywikibot := True\<rparr>),
      (''extensions'', no_flags\<lparr>exts := True\<rparr>),
      (''skins'', no_flags\<lparr>skins := True\<rparr>),
      (''things'', no_flags\<lparr>exts := True, skins := True\<rparr>),
      (''ooui'', no_flags\<lparr>ooui := True\<rparr>),
      (''operations'', no_flags\<lparr>operations := True, puppet := True\<rparr>),
      (''armchairgm'', no_flags\<lparr>armchairgm := True\<rparr>),
      (''milkshake'', no_flags\<lparr>milkshake := True\<rparr>),
      (''bundled'', no_flags\<lparr>core := True, bundled := True, vendor := True\<rparr>),
      (''deployed'', no_flags\<lparr>core := True, wikimedia := True, vendor := True, services := True\<rparr>),
      (''services'', no_flags\<lparr>services := True\<rparr>),
      (''libraries'', no_flags\<lparr>ooui := True, milkshake := True, libs := True\<rparr>),
      (''analytics'', no_flags\<lparr>analytics := True\<rparr>),
      (''wmcs'', no_flags\<lparr>wmcs := True\<rparr>),
      (''puppet'', no_flags\<lparr>puppet := True\<rparr>),
      (''shouthow'', no_flags\<lparr>shouthow := True\<rparr>)]"

text \<open>
  \<^verbatim>\<open>main\<close> has no \<^verbatim>\<open>try\<close>: an error of one call of \<^verbatim>\<open>make_conf\<close> leaves \<^verbatim>\<open>main\<close>, and the calls
  after it are not made.
\<close>

fun run_profiles ::
  "world \<Rightarrow> args \<Rightarrow> (string \<times> flags) list \<Rightarrow> run_state \<Rightarrow> (error + unit) \<times> run_state" where
  "run_profiles w a [] s = (Inr (), s)"
| "run_profiles w a ((name, f) # ps) s =
     (case make_conf w name a f s of
        (Inl e, s1) \<Rightarrow> (Inl e, s1)
      | (Inr u, s1) \<Rightarrow> run_profiles w a ps s1)"

definition main :: "world \<Rightarrow> args \<Rightarrow> run_state \<Rightarrow> (error + unit) \<times> run_state" where
  "main w a s = run_profiles w a profiles s"

text \<open>
  The state in which a process starts: the caches are empty, nothing has happened; the
  files and directories are those that earlier runs left.
\<close>

definition start :: "(string \<Rightarrow> conf option) \<Rightarrow> string set \<Rightarrow> run_state" where
  "start fs ds =
     \<lparr>extdist_cache = None, gitmodules_cache = (\<lambda>u. None), settings_cache = None,
      files = fs, dirs = ds, events = []\<rparr>"

section \<open>The fingerprint of a mapping, as the spec words it\<close>

text \<open>
  The spec calls the set of remote locations "derived from a RepositoryMapping" its
  fingerprint, and a mapping gives every display name at most one descriptor. These
  definitions follow that wording: the mapping of a configuration is the partial function
  from names to descriptors, its fingerprint the set of the \<^verbatim>\<open>url\<close> of the descriptors in its
  range, and an absent previous configuration has the empty fingerprint. A configuration
  is a dictionary when no name stands twice in it.
\<close>

definition fingerprint :: "(string \<rightharpoonup> descriptor) \<Rightarrow> string set" where
  "fingerprint m = url ` ran m"

definition mapping_of :: "conf \<Rightarrow> (string \<rightharpoonup> descriptor)" where
  "mapping_of c = map_of (repos c)"

definition previous_fingerprint :: "conf option \<Rightarrow> string set" where
  "previous_fingerprint previous =
     (case previous of None \<Rightarrow> {} | Some p \<Rightarrow> fingerprint (mapping_of p))"

definition well_formed :: "conf \<Rightarrow> bool" where
  "well_formed c = distinct (map fst (repos c))"

section \<open>Observations on a run\<close>

text \<open>
  Three ways to compare the state before an operation with the state after it. A state
  grows when the trace is only extended. While the rules of \<^verbatim>\<open>make_conf\<close> run, the program
  only sends requests: the files and directories stay as they are, and every new event is
  a request. \<open>fetch_count\<close> counts how often a query has been sent so far.
\<close>

definition grows :: "run_state \<Rightarrow> run_state \<Rightarrow> bool" where
  "grows s s' = (\<exists>es. events s' = events s @ es)"

definition only_fetches :: "run_state \<Rightarrow> run_state \<Rightarrow> bool" where
  "only_fetches s s' =
     (files s' = files s \<and> dirs s' = dirs s \<and> (\<exists>qs. events s' = events s @ map Fetch qs))"

definition fetch_count :: "query \<Rightarrow> run_state \<Rightarrow> nat" where
  "fetch_count q s = count_list (events s) (Fetch q)"

section \<open>Example worlds\<close>

text \<open>
  \<open>quiet\<close>: every service answers, with one extension, no skin, empty manifests, empty
  bundles and no Gerrit project, and every command exits with 0. \<open>offline\<close>: every request
  fails. \<open>no_extensions\<close>: as \<open>quiet\<close>, but the wiki API lists no extension.
  \<open>third_party\<close>: as \<open>quiet\<close>, but the manifest of the extensions names the repository
  \<^verbatim>\<open>org/repo\<close> of GitHub and the manifest of the skins the repository \<^verbatim>\<open>org/repo\<close> of GitLab.
\<close>

definition quiet :: world where
  "quiet =
     \<lparr>extdist_api = Inr \<lparr>listed_extensions = Some [''Foo''], listed_skins = Some []\<rparr>,
      raw_file = (\<lambda>u. Inr []),
      settings_doc = Inr \<lparr>bundle_base = Some [], bundle_wmf_core = Some []\<rparr>,
      gerrit_projects = (\<lambda>p. Inr []),
      exit_code = (\<lambda>cmd. 0)\<rparr>"

definition offline :: world where
  "offline =
     \<lparr>extdist_api = Inl (RemoteFetchError ''https://www.mediawiki.org/w/api.php''),
      raw_file = (\<lambda>u. Inl (RemoteFetchError u)),
      settings_doc = Inl (RemoteFetchError ''make-release/settings.yaml''),
      gerrit_projects = (\<lambda>p. Inl (RemoteFetchError p)),
      exit_code = (\<lambda>cmd. 0)\<rparr>"

definition no_extensions :: world where
  "no_extensions =
     quiet\<lparr>extdist_api := Inr \<lparr>listed_extensions = Some [], listed_skins = Some []\<rparr>\<rparr>"

definition third_party :: world where
  "third_party =
     quiet\<lparr>raw_file := (\<lambda>u.
        if u = ''https://raw.githubusercontent.com/MWStake/nonwmf-extensions/master/.gitmodules''
        then Inr (''[a]'' @ [CHR 0x0A] @ ''url = https://github.com/org/repo.git'' @ [CHR 0x0A])
        else if u = ''https://raw.githubusercontent.com/MWStake/nonwmf-skins/master/.gitmodules''
        then Inr (''[b]'' @ [CHR 0x0A] @ ''url = https://gitlab.com/org/repo.git'' @ [CHR 0x0A])
        else Inr [])\<rparr>"

text \<open>No \<^verbatim>\<open>--restart\<close>, and a process that starts with no file and no directory.\<close>

definition no_restart :: args where
  "no_restart = \<lparr>restart = False\<rparr>"

definition fresh :: run_state where
  "fresh = start (\<lambda>p. None) {}"

section \<open>The manifest resolver: properties\<close>

lemma gitmodules_loop_append:
  "gitmodules_loop (xs @ ys) acc =
     (case gitmodules_loop xs acc of Inl e \<Rightarrow> Inl e | Inr r \<Rightarrow> gitmodules_loop ys r)"
proof (induction xs arbitrary: acc)
  case Nil
  show ?case by simp
next
  case (Cons x xs)
  obtain sec opts where x: "x = (sec, opts)" by (cases x)
  show ?case
    unfolding x by (simp add: Cons.IH Let_def split: option.splits)
qed

lemma strip_git_suffix: "strip_git (v @ ''.git'') = v"
  by (simp add: strip_git_def endswith_def)

text \<open>
  C7. The manifest text with the one section \<^verbatim>\<open>[foo]\<close> and the line
  \<^verbatim>\<open>url = https://github.com/org/repo.git\<close> resolves to exactly one entry: its display name is
  \<^verbatim>\<open>org/repo\<close>, its descriptor has the remote location \<^verbatim>\<open>https://github.com/org/repo\<close>, the poll
  interval 5400000 milliseconds and no browse-URL template.
\<close>

theorem manifest_scenario:
  "resolve_manifest (''[foo]'' @ [CHR 0x0A] @ ''url = https://github.com/org/repo.git'' @ [CHR 0x0A])
     = Inr [(''org/repo'',
             \<lparr>url = ''https://github.com/org/repo'', pattern = None, ms_between_poll = 5400000\<rparr>)]"
  by code_simp

text \<open>
  C6. For an entry of a manifest whose \<^verbatim>\<open>url\<close> is \<open>u0\<close>, the resolver works on \<open>u\<close>, which is
  \<open>u0\<close> without a trailing \<^verbatim>\<open>.git\<close>. The hosts are tried as substrings of \<open>u\<close> in the order
  \<^verbatim>\<open>github.com\<close>, \<^verbatim>\<open>bitbucket.org\<close>, \<^verbatim>\<open>gitlab.com\<close>, \<^verbatim>\<open>invent.kde.org\<close>,
  \<^verbatim>\<open>phabricator.nichework.com\<close>, and the first that occurs decides: the first four append the
  entry of their adapter and go on, the fifth is skipped without an entry and without an
  error, and a URL with none of them raises \<open>RuntimeError\<close> with the message
  \<^verbatim>\<open>Unsure how to handle URL:\<close> and \<open>u\<close>. That error is the result of the whole resolution,
  whatever the entries before it gave and whatever follows: \<^verbatim>\<open>parse_gitmodules\<close> returns no
  list and caches nothing.
\<close>

theorem manifest_classification:
  assumes "map_of opts ''url'' = Some u0" and "u = strip_git u0"
  shows
    "(\<forall>v. u0 = v @ ''.git'' \<longrightarrow> u = v) \<and>
     (\<not> endswith u0 ''.git'' \<longrightarrow> u = u0) \<and>
     (str_in ''github.com'' u \<longrightarrow>
        gitmodules_loop ((sec, opts) # rest) acc =
          gitmodules_loop rest
            (acc @ [(replace (replace u ''git@github.com:'' '''') ''https://github.com/'' '''',
                     gh_repo (replace (replace u ''git@github.com:'' '''') ''https://github.com/'' '''')
                       ''github.com'')])) \<and>
     (\<not> str_in ''github.com'' u \<and> str_in ''bitbucket.org'' u \<longrightarrow>
        gitmodules_loop ((sec, opts) # rest) acc =
          gitmodules_loop rest
            (acc @ [(replace u ''https://bitbucket.org/'' '''',
                     bitbucket_repo (replace u ''https://bitbucket.org/'' ''''))])) \<and>
     (\<not> str_in ''github.com'' u \<and> \<not> str_in ''bitbucket.org'' u \<and> str_in ''gitlab.com'' u \<longrightarrow>
        gitmodules_loop ((sec, opts) # rest) acc =
          gitmodules_loop rest
            (acc @ [(replace u ''https://gitlab.com/'' '''',
                     gitlab_repo (replace u ''https://gitlab.com/'' ''''))])) \<and>
     (\<not> str_in ''github.com'' u \<and> \<not> str_in ''bitbucket.org'' u \<and> \<not> str_in ''gitlab.com'' u \<and>
      str_in ''invent.kde.org'' u \<longrightarrow>
        gitmodules_loop ((sec, opts) # rest) acc =
          gitmodules_loop rest
            (acc @ [(replace u ''https://invent.kde.org/'' '''',
                     gh_repo (replace u ''https://invent.kde.org/'' '''') ''invent.kde.org'')])) \<and>
     (\<not> str_in ''github.com'' u \<and> \<not> str_in ''bitbucket.org'' u \<and> \<not> str_in ''gitlab.com'' u \<and>
      \<not> str_in ''invent.kde.org'' u \<and> str_in ''phabricator.nichework.com'' u \<longrightarrow>
        gitmodules_loop ((sec, opts) # rest) acc = gitmodules_loop rest acc) \<and>
     (\<not> str_in ''github.com'' u \<and> \<not> str_in ''bitbucket.org'' u \<and> \<not> str_in ''gitlab.com'' u \<and>
      \<not> str_in ''invent.kde.org'' u \<and> \<not> str_in ''phabricator.nichework.com'' u \<longrightarrow>
        gitmodules_loop ((sec, opts) # rest) acc =
          Inl (RuntimeError (''Unsure how to handle URL: '' @ u)) \<and>
        (\<forall>earlier acc0 r. gitmodules_loop earlier acc0 = Inr r \<longrightarrow>
           gitmodules_loop (earlier @ (sec, opts) # rest) acc0 =
             Inl (RuntimeError (''Unsure how to handle URL: '' @ u))) \<and>
        (\<forall>w m s doc earlier r.
           gitmodules_cache s m = None \<and> raw_file w m = Inr doc \<and>
           read_string doc = Inr (earlier @ (sec, opts) # rest) \<and>
           gitmodules_loop earlier [] = Inr r \<longrightarrow>
           parse_gitmodules w m s =
             (Inl (RuntimeError (''Unsure how to handle URL: '' @ u)), emit (Fetch (RawFile m)) s)))"
proof -
  have strip1: "\<forall>v. u0 = v @ ''.git'' \<longrightarrow> u = v"
    using assms(2) by (simp add: strip_git_suffix)
  have strip2: "\<not> endswith u0 ''.git'' \<longrightarrow> u = u0"
    using assms(2) by (simp add: strip_git_def)
  have step: "gitmodules_loop ((sec, opts) # rest) acc =
      (if str_in ''github.com'' u then
         gitmodules_loop rest
           (acc @ [(replace (replace u ''git@github.com:'' '''') ''https://github.com/'' '''',
                    gh_repo (replace (replace u ''git@github.com:'' '''') ''https://github.com/'' '''')
                      ''github.com'')])
       else if str_in ''bitbucket.org'' u then
         gitmodules_loop rest
           (acc @ [(replace u ''https://bitbucket.org/'' '''',
                    bitbucket_repo (replace u ''https://bitbucket.org/'' ''''))])
       else if str_in ''gitlab.com'' u then
         gitmodules_loop rest
           (acc @ [(replace u ''https://gitlab.com/'' '''',
                    gitlab_repo (replace u ''https://gitlab.com/'' ''''))])
       else if str_in ''invent.kde.org'' u then
         gitmodules_loop rest
           (acc @ [(replace u ''https://invent.kde.org/'' '''',
                    gh_repo (replace u ''https://invent.kde.org/'' '''') ''invent.kde.org'')])
       else if str_in ''phabricator.nichework.com'' u then gitmodules_loop rest acc
       else Inl (RuntimeError (''Unsure how to handle URL: '' @ u)))" for acc
    using assms by (simp add: Let_def)
  have unknown: "gitmodules_loop (earlier @ (sec, opts) # rest) acc0 =
        Inl (RuntimeError (''Unsure how to handle URL: '' @ u))"
    if "\<not> str_in ''github.com'' u" "\<not> str_in ''bitbucket.org'' u" "\<not> str_in ''gitlab.com'' u"
      "\<not> str_in ''invent.kde.org'' u" "\<not> str_in ''phabricator.nichework.com'' u"
      "gitmodules_loop earlier acc0 = Inr r" for earlier acc0 r
    using that by (simp add: gitmodules_loop_append step del: gitmodules_loop.simps)
  have fetch: "parse_gitmodules w m s =
        (Inl (RuntimeError (''Unsure how to handle URL: '' @ u)), emit (Fetch (RawFile m)) s)"
    if "\<not> str_in ''github.com'' u" "\<not> str_in ''bitbucket.org'' u" "\<not> str_in ''gitlab.com'' u"
      "\<not> str_in ''invent.kde.org'' u" "\<not> str_in ''phabricator.nichework.com'' u"
      "gitmodules_cache s m = None" "raw_file w m = Inr doc"
      "read_string doc = Inr (earlier @ (sec, opts) # rest)"
      "gitmodules_loop earlier [] = Inr r" for w m s doc earlier r
    using that unknown [OF that(1-5) that(9)]
    by (simp add: parse_gitmodules_def resolve_manifest_def Let_def del: gitmodules_loop.simps)
  show ?thesis
    using strip1 strip2 unknown fetch
    by (simp add: step del: gitmodules_loop.simps)
qed

text \<open>
  The theorem at three manifests: a GitHub entry, an entry of the skipped host, and an
  entry of an unknown host between two entries that resolve.
\<close>

theorem manifest_classification_witness:
  "gitmodules_loop
     [(''a'', [(''url'', ''https://github.com/org/repo.git'')]),
      (''b'', [(''url'', ''https://example.org/x.git'')]),
      (''c'', [(''url'', ''https://gitlab.com/g/h'')])] []
     = Inl (RuntimeError ''Unsure how to handle URL: https://example.org/x'') \<and>
   gitmodules_loop [(''a'', [(''url'', ''https://github.com/org/repo.git'')])] []
     = Inr [(''org/repo'', gh_repo ''org/repo'' ''github.com'')] \<and>
   gitmodules_loop [(''p'', [(''url'', ''https://phabricator.nichework.com/source/x'')])] []
     = Inr []"
proof -
  have o1: "map_of [(''url'', ''https://github.com/org/repo.git'')] ''url''
      = Some ''https://github.com/org/repo.git''"
    by simp
  have u1: "''https://github.com/org/repo'' = strip_git ''https://github.com/org/repo.git''"
    by code_simp
  have m1: "str_in ''github.com'' ''https://github.com/org/repo''"
    by code_simp
  have r1: "replace (replace ''https://github.com/org/repo'' ''git@github.com:'' '''')
      ''https://github.com/'' '''' = ''org/repo''"
    by code_simp
  from manifest_classification [OF o1 u1, of "''a''" "[]" "[]"] m1
  have first: "gitmodules_loop [(''a'', [(''url'', ''https://github.com/org/repo.git'')])] []
      = Inr [(''org/repo'', gh_repo ''org/repo'' ''github.com'')]"
    by (simp only: r1 append_Nil gitmodules_loop.simps(1))
  have o2: "map_of [(''url'', ''https://example.org/x.git'')] ''url''
      = Some ''https://example.org/x.git''"
    by simp
  have u2: "''https://example.org/x'' = strip_git ''https://example.org/x.git''"
    by code_simp
  have n2: "\<not> str_in ''github.com'' ''https://example.org/x''"
    "\<not> str_in ''bitbucket.org'' ''https://example.org/x''"
    "\<not> str_in ''gitlab.com'' ''https://example.org/x''"
    "\<not> str_in ''invent.kde.org'' ''https://example.org/x''"
    "\<not> str_in ''phabricator.nichework.com'' ''https://example.org/x''"
    by code_simp+
  from manifest_classification [OF o2 u2, of "''b''" "[(''c'', [(''url'', ''https://gitlab.com/g/h'')])]" "[]"] n2
  have "\<forall>earlier acc0 r. gitmodules_loop earlier acc0 = Inr r \<longrightarrow>
      gitmodules_loop (earlier @ (''b'', [(''url'', ''https://example.org/x.git'')])
        # [(''c'', [(''url'', ''https://gitlab.com/g/h'')])]) acc0
        = Inl (RuntimeError (''Unsure how to handle URL: '' @ ''https://example.org/x''))"
    by blast
  with first have second: "gitmodules_loop
     ([(''a'', [(''url'', ''https://github.com/org/repo.git'')])] @
      (''b'', [(''url'', ''https://example.org/x.git'')]) #
      [(''c'', [(''url'', ''https://gitlab.com/g/h'')])]) []
     = Inl (RuntimeError (''Unsure how to handle URL: '' @ ''https://example.org/x''))"
    by blast
  have o3: "map_of [(''url'', ''https://phabricator.nichework.com/source/x'')] ''url''
      = Some ''https://phabricator.nichework.com/source/x''"
    by simp
  have u3: "''https://phabricator.nichework.com/source/x''
      = strip_git ''https://phabricator.nichework.com/source/x''"
    by code_simp
  have n3: "\<not> str_in ''github.com'' ''https://phabricator.nichework.com/source/x''"
    "\<not> str_in ''bitbucket.org'' ''https://phabricator.nichework.com/source/x''"
    "\<not> str_in ''gitlab.com'' ''https://phabricator.nichework.com/source/x''"
    "\<not> str_in ''invent.kde.org'' ''https://phabricator.nichework.com/source/x''"
    "str_in ''phabricator.nichework.com'' ''https://phabricator.nichework.com/source/x''"
    by code_simp+
  from manifest_classification [OF o3 u3, of "''p''" "[]" "[]"] n3
  have third: "gitmodules_loop [(''p'', [(''url'', ''https://phabricator.nichework.com/source/x'')])] []
      = Inr []"
    by (simp only: simp_thms gitmodules_loop.simps(1))
  from first second third show ?thesis
    by (simp only: append_Cons append_Nil simp_thms)
qed

section \<open>Change detection: properties\<close>

lemma extract_urls_fingerprint:
  "well_formed c \<Longrightarrow> extract_urls c = fingerprint (mapping_of c)"
  by (auto simp: well_formed_def extract_urls_def fingerprint_def mapping_of_def ran_distinct
      image_image case_prod_beta image_iff)

lemma extract_urls_rename:
  "extract_urls (c\<lparr>repos := map (\<lambda>(n, d). (f n, d)) (repos c)\<rparr>) = extract_urls c"
  by (simp add: extract_urls_def case_prod_beta comp_def)

lemma update_url_mem: "url d \<in> extract_urls (c\<lparr>repos := AList.update n d (repos c)\<rparr>)"
proof -
  have "map_of (AList.update n d (repos c)) n = Some d" by (simp add: update_conv')
  then have "(n, d) \<in> set (AList.update n d (repos c))" by (rule map_of_SomeD)
  then show ?thesis by (force simp: extract_urls_def)
qed

lemma well_formed_rename:
  assumes "well_formed c" and "inj_on f (fst ` set (repos c))"
  shows "well_formed (c\<lparr>repos := map (\<lambda>(n, d). (f n, d)) (repos c)\<rparr>)"
proof -
  have eq: "map fst (map (\<lambda>(n, d). (f n, d)) (repos c)) = map f (map fst (repos c))"
    by (simp add: case_prod_beta comp_def)
  from assms have "distinct (map f (map fst (repos c)))"
    unfolding well_formed_def by (subst distinct_map) simp
  then have "distinct (map fst (map (\<lambda>(n, d). (f n, d)) (repos c)))"
    by (simp only: eq)
  then show ?thesis by (simp add: well_formed_def)
qed

text \<open>
  C2. For a previous configuration, or none, and a new one, each a dictionary, the test
  \<^verbatim>\<open>new != old\<close> of \<^verbatim>\<open>make_conf\<close> is true exactly when the fingerprint of the previous
  mapping (the empty set when there is none) differs from the fingerprint of the new one.
  So renaming the display names, each descriptor kept, is no change; writing to a name a
  descriptor whose location is not in the previous fingerprint (a location added, or the
  location of that name modified) is a change; and deleting a name whose location no
  remaining entry has is a change.
\<close>

theorem change_detection:
  assumes "well_formed c" and "\<forall>p. previous = Some p \<longrightarrow> well_formed p"
  shows
    "(has_changed previous c \<longleftrightarrow> previous_fingerprint previous \<noteq> fingerprint (mapping_of c)) \<and>
     (inj_on f (fst ` set (repos c)) \<longrightarrow>
        well_formed (c\<lparr>repos := map (\<lambda>(n, d). (f n, d)) (repos c)\<rparr>) \<and>
        \<not> has_changed (Some c) (c\<lparr>repos := map (\<lambda>(n, d). (f n, d)) (repos c)\<rparr>)) \<and>
     (url d \<notin> fingerprint (mapping_of c) \<longrightarrow>
        well_formed (c\<lparr>repos := AList.update n d (repos c)\<rparr>) \<and>
        has_changed (Some c) (c\<lparr>repos := AList.update n d (repos c)\<rparr>)) \<and>
     (map_of (repos c) n = Some d \<and>
      url d \<notin> fingerprint (mapping_of (c\<lparr>repos := AList.delete n (repos c)\<rparr>)) \<longrightarrow>
        well_formed (c\<lparr>repos := AList.delete n (repos c)\<rparr>) \<and>
        has_changed (Some c) (c\<lparr>repos := AList.delete n (repos c)\<rparr>))"
proof (intro conjI impI)
  show "has_changed previous c \<longleftrightarrow> previous_fingerprint previous \<noteq> fingerprint (mapping_of c)"
    using assms
    by (cases previous)
       (auto simp: has_changed_def old_urls_def previous_fingerprint_def extract_urls_fingerprint)
next
  assume "inj_on f (fst ` set (repos c))"
  with assms(1) show "well_formed (c\<lparr>repos := map (\<lambda>(n, d). (f n, d)) (repos c)\<rparr>)"
    by (rule well_formed_rename)
next
  show "\<not> has_changed (Some c) (c\<lparr>repos := map (\<lambda>(n, d). (f n, d)) (repos c)\<rparr>)"
    by (simp add: has_changed_def old_urls_def extract_urls_rename)
next
  show "well_formed (c\<lparr>repos := AList.update n d (repos c)\<rparr>)"
    using assms(1) by (simp add: well_formed_def distinct_update)
next
  assume "url d \<notin> fingerprint (mapping_of c)"
  with assms(1) have "url d \<notin> extract_urls c"
    by (simp add: extract_urls_fingerprint)
  with update_url_mem [where d = d and c = c and n = n]
  show "has_changed (Some c) (c\<lparr>repos := AList.update n d (repos c)\<rparr>)"
    by (auto simp: has_changed_def old_urls_def)
next
  show "well_formed (c\<lparr>repos := AList.delete n (repos c)\<rparr>)"
    using assms(1) by (simp add: well_formed_def distinct_delete)
next
  assume a: "map_of (repos c) n = Some d \<and>
      url d \<notin> fingerprint (mapping_of (c\<lparr>repos := AList.delete n (repos c)\<rparr>))"
  have wf: "well_formed (c\<lparr>repos := AList.delete n (repos c)\<rparr>)"
    using assms(1) by (simp add: well_formed_def distinct_delete)
  from a have "(n, d) \<in> set (repos c)" by (auto dest: map_of_SomeD)
  then have old: "url d \<in> extract_urls c" by (force simp: extract_urls_def)
  from a wf have "url d \<notin> extract_urls (c\<lparr>repos := AList.delete n (repos c)\<rparr>)"
    by (simp add: extract_urls_fingerprint)
  with old show "has_changed (Some c) (c\<lparr>repos := AList.delete n (repos c)\<rparr>)"
    by (auto simp: has_changed_def old_urls_def)
qed

text \<open>
  The theorem at the configuration of the rules \<^verbatim>\<open>armchairgm\<close> and \<^verbatim>\<open>twn\<close>: against no
  previous file, after a renaming, after a new location for \<^verbatim>\<open>ArmchairGM\<close>, and after its
  removal.
\<close>

theorem change_detection_witness:
  "has_changed None (build_conf [armchairgm_writes, twn_writes]) \<and>
   \<not> has_changed (Some (build_conf [armchairgm_writes, twn_writes]))
       ((build_conf [armchairgm_writes, twn_writes])
          \<lparr>repos := map (\<lambda>(n, d). (''Extension:'' @ n, d))
                      (repos (build_conf [armchairgm_writes, twn_writes]))\<rparr>) \<and>
   has_changed (Some (build_conf [armchairgm_writes, twn_writes]))
       ((build_conf [armchairgm_writes, twn_writes])
          \<lparr>repos := AList.update ''ArmchairGM'' (gh_repo ''ashley/ArmchairGM'' ''github.com'')
                      (repos (build_conf [armchairgm_writes, twn_writes]))\<rparr>) \<and>
   has_changed (Some (build_conf [armchairgm_writes, twn_writes]))
       ((build_conf [armchairgm_writes, twn_writes])
          \<lparr>repos := AList.delete ''ArmchairGM''
                      (repos (build_conf [armchairgm_writes, twn_writes]))\<rparr>)"
proof -
  let ?c = "build_conf [armchairgm_writes, twn_writes]"
  let ?d = "gh_repo ''mary-kate/ArmchairGM'' ''github.com''"
  let ?d' = "gh_repo ''ashley/ArmchairGM'' ''github.com''"
  have rs: "repos ?c = [(''ArmchairGM'', ?d), (''translatewiki.net'', repo_info ''translatewiki'')]"
    by (simp add: build_conf_def apply_writes_def armchairgm_writes_def twn_writes_def)
  have wf: "well_formed ?c"
    by (simp add: well_formed_def rs)
  have none: "\<forall>p. (None :: conf option) = Some p \<longrightarrow> well_formed p"
    by simp
  have some: "\<forall>p. Some ?c = Some p \<longrightarrow> well_formed p"
    using wf by simp
  have inj: "inj_on (\<lambda>n. ''Extension:'' @ n) (fst ` set (repos ?c))"
    by (simp add: inj_on_def)
  have fp: "fingerprint (mapping_of ?c) = extract_urls ?c"
    using wf by (simp add: extract_urls_fingerprint)
  have urls: "extract_urls ?c = {url ?d, url (repo_info ''translatewiki'')}"
    by (simp add: extract_urls_def rs)
  have new: "url ?d' \<notin> fingerprint (mapping_of ?c)"
    by (simp add: fp urls gh_repo_def repo_info_def)
  have present: "map_of (repos ?c) ''ArmchairGM'' = Some ?d"
    by (simp add: rs)
  have wf2: "well_formed (?c\<lparr>repos := AList.delete ''ArmchairGM'' (repos ?c)\<rparr>)"
    by (simp add: well_formed_def rs)
  have "url ?d \<notin> extract_urls (?c\<lparr>repos := AList.delete ''ArmchairGM'' (repos ?c)\<rparr>)"
    by (simp add: extract_urls_def rs gh_repo_def repo_info_def)
  then have gone:
    "url ?d \<notin> fingerprint (mapping_of (?c\<lparr>repos := AList.delete ''ArmchairGM'' (repos ?c)\<rparr>))"
    unfolding extract_urls_fingerprint [OF wf2] .
  have nonempty: "previous_fingerprint None \<noteq> fingerprint (mapping_of ?c)"
    by (simp add: previous_fingerprint_def fp urls)
  from change_detection [OF wf none] nonempty
  have first: "has_changed None ?c"
    by blast
  from change_detection [OF wf some, where f = "\<lambda>n. ''Extension:'' @ n"
      and d = ?d' and n = "''ArmchairGM''"] inj new
  have second: "\<not> has_changed (Some ?c) (?c\<lparr>repos := map (\<lambda>(n, d). (''Extension:'' @ n, d)) (repos ?c)\<rparr>)"
    and third: "has_changed (Some ?c) (?c\<lparr>repos := AList.update ''ArmchairGM'' ?d' (repos ?c)\<rparr>)"
    by blast+
  from change_detection [OF wf some, where d = ?d and n = "''ArmchairGM''"] present gone
  have fourth: "has_changed (Some ?c) (?c\<lparr>repos := AList.delete ''ArmchairGM'' (repos ?c)\<rparr>)"
    by blast
  from first second third fourth show ?thesis
    by blast
qed

section \<open>The rules only send requests\<close>

lemma grows_refl: "grows s s"
  by (simp add: grows_def)

lemma grows_trans: "grows s s1 \<Longrightarrow> grows s1 s2 \<Longrightarrow> grows s s2"
  by (auto simp: grows_def)

lemma only_fetches_grows: "only_fetches s s' \<Longrightarrow> grows s s'"
  by (auto simp: only_fetches_def grows_def)

lemma only_fetches_refl: "only_fetches s s"
  by (simp add: only_fetches_def)

lemma only_fetches_trans:
  assumes "only_fetches s s1" and "only_fetches s1 s2"
  shows "only_fetches s s2"
proof -
  from assms(1) obtain qs where qs: "events s1 = events s @ map Fetch qs"
    by (auto simp: only_fetches_def)
  from assms(2) obtain qs' where qs': "events s2 = events s1 @ map Fetch qs'"
    by (auto simp: only_fetches_def)
  from qs qs' have "events s2 = events s @ map Fetch (qs @ qs')" by simp
  then have "\<exists>qs. events s2 = events s @ map Fetch qs" ..
  with assms show ?thesis by (simp add: only_fetches_def)
qed

lemma only_fetches_emit: "only_fetches s (emit (Fetch q) s)"
proof -
  have "events (emit (Fetch q) s) = events s @ map Fetch [q]" by (simp add: emit_def)
  then have "\<exists>qs. events (emit (Fetch q) s) = events s @ map Fetch qs" ..
  then show ?thesis by (simp add: only_fetches_def emit_def)
qed

lemma only_fetches_caches:
  "only_fetches s t \<Longrightarrow> only_fetches s (t\<lparr>extdist_cache := x\<rparr>)"
  "only_fetches s t \<Longrightarrow> only_fetches s (t\<lparr>gitmodules_cache := y\<rparr>)"
  "only_fetches s t \<Longrightarrow> only_fetches s (t\<lparr>settings_cache := z\<rparr>)"
  by (simp_all add: only_fetches_def)

lemmas only_fetches_base =
  only_fetches_refl only_fetches_emit only_fetches_caches

lemma only_fetches_get_extdist_repos: "get_extdist_repos w s = (r, s') \<Longrightarrow> only_fetches s s'"
  by (auto simp: get_extdist_repos_def Let_def only_fetches_base split: option.splits sum.splits)

lemma only_fetches_parse_gitmodules: "parse_gitmodules w u s = (r, s') \<Longrightarrow> only_fetches s s'"
  by (auto simp: parse_gitmodules_def Let_def only_fetches_base split: option.splits sum.splits)

lemma only_fetches_settings_yaml: "settings_yaml w s = (r, s') \<Longrightarrow> only_fetches s s'"
  by (auto simp: settings_yaml_def Let_def only_fetches_base split: option.splits sum.splits)

lemma only_fetches_gerrit_prefix_list:
  "gerrit_prefix_list w p s = (r, s') \<Longrightarrow> only_fetches s s'"
  by (auto simp: gerrit_prefix_list_def Let_def only_fetches_base split: option.splits sum.splits)

lemma only_fetches_bundled_repos: "bundled_repos w s = (r, s') \<Longrightarrow> only_fetches s s'"
  by (auto simp: bundled_repos_def split: prod.splits option.splits sum.splits
      dest: only_fetches_settings_yaml)

lemma only_fetches_wikimedia_deployed_repos:
  "wikimedia_deployed_repos w s = (r, s') \<Longrightarrow> only_fetches s s'"
  by (auto simp: wikimedia_deployed_repos_def split: prod.splits option.splits sum.splits
      dest: only_fetches_settings_yaml)

lemma only_fetches_static: "static b ws s = (r, s') \<Longrightarrow> only_fetches s s'"
  by (auto simp: static_def only_fetches_refl)

lemma only_fetches_exts_rule: "exts_rule w f data s = (r, s') \<Longrightarrow> only_fetches s s'"
  by (auto simp: exts_rule_def only_fetches_refl
      split: if_splits prod.splits option.splits sum.splits
      dest: only_fetches_parse_gitmodules)

lemma only_fetches_skins_rule: "skins_rule w f data s = (r, s') \<Longrightarrow> only_fetches s s'"
  by (auto simp: skins_rule_def only_fetches_refl
      split: if_splits prod.splits option.splits sum.splits
      dest: only_fetches_parse_gitmodules)

lemma only_fetches_bundled_rule: "bundled_rule w f s = (r, s') \<Longrightarrow> only_fetches s s'"
  by (auto simp: bundled_rule_def only_fetches_refl
      split: if_splits prod.splits option.splits sum.splits
      dest: only_fetches_bundled_repos)

lemma only_fetches_wikimedia_rule: "wikimedia_rule w f s = (r, s') \<Longrightarrow> only_fetches s s'"
  by (auto simp: wikimedia_rule_def only_fetches_refl
      split: if_splits prod.splits option.splits sum.splits
      dest: only_fetches_wikimedia_deployed_repos)

lemma only_fetches_services_rule: "services_rule w f s = (r, s') \<Longrightarrow> only_fetches s s'"
  by (auto simp: services_rule_def only_fetches_refl
      split: if_splits prod.splits option.splits sum.splits
      dest: only_fetches_gerrit_prefix_list)

lemma only_fetches_libs_rule: "libs_rule w f s = (r, s') \<Longrightarrow> only_fetches s s'"
  by (auto simp: libs_rule_def only_fetches_refl
      split: if_splits prod.splits option.splits sum.splits
      dest: only_fetches_gerrit_prefix_list)

lemma only_fetches_prefix_rule: "prefix_rule w b p s = (r, s') \<Longrightarrow> only_fetches s s'"
  by (auto simp: prefix_rule_def only_fetches_refl
      split: if_splits prod.splits option.splits sum.splits
      dest: only_fetches_gerrit_prefix_list)

lemma only_fetches_wmcs_rule: "wmcs_rule w f s = (r, s') \<Longrightarrow> only_fetches s s'"
  unfolding wmcs_rule_def
  by (auto simp: only_fetches_refl split: if_splits prod.splits sum.splits
      dest!: only_fetches_gerrit_prefix_list)
     (blast intro: only_fetches_trans)+

lemma only_fetches_run_rules:
  "\<forall>r \<in> set rs. \<forall>t x t'. r t = (x, t') \<longrightarrow> only_fetches t t' \<Longrightarrow>
   run_rules rs s = (res, s') \<Longrightarrow> only_fetches s s'"
proof (induction rs arbitrary: s res s')
  case Nil
  then show ?case by (simp add: only_fetches_refl)
next
  case (Cons r rs)
  obtain x s1 where r: "r s = (x, s1)" by (cases "r s")
  have a: "only_fetches s s1" using Cons.prems(1) r by simp
  show ?case
  proof (cases x)
    case (Inl e)
    with Cons.prems(2) r a show ?thesis by simp
  next
    case (Inr ws)
    obtain y s2 where rest: "run_rules rs s1 = (y, s2)" by (cases "run_rules rs s1")
    from Cons.prems(1)
    have "\<forall>r \<in> set rs. \<forall>t x t'. r t = (x, t') \<longrightarrow> only_fetches t t'"
      by simp
    then have b: "only_fetches s1 s2" using rest by (rule Cons.IH)
    from Cons.prems(2) r Inr rest have "s' = s2"
      by (auto split: sum.splits)
    with a b show ?thesis by (blast intro: only_fetches_trans)
  qed
qed

lemma only_fetches_later_rules:
  "run_rules (later_rules w f data) s = (res, s') \<Longrightarrow> only_fetches s s'"
  by (erule only_fetches_run_rules [rotated])
     (auto simp: later_rules_def
       dest: only_fetches_static only_fetches_exts_rule only_fetches_skins_rule
         only_fetches_bundled_rule only_fetches_wikimedia_rule only_fetches_services_rule
         only_fetches_libs_rule only_fetches_prefix_rule only_fetches_wmcs_rule)

lemma only_fetches_rule_writes: "rule_writes w f s = (r, s') \<Longrightarrow> only_fetches s s'"
  unfolding rule_writes_def
  by (auto split: prod.splits sum.splits
      dest!: only_fetches_get_extdist_repos only_fetches_later_rules
      intro: only_fetches_trans)

lemma only_fetches_files: "only_fetches s s' \<Longrightarrow> files s' = files s"
  by (simp add: only_fetches_def)

lemma grows_make_conf_publish: "make_conf_publish w name a c s = (r, s') \<Longrightarrow> grows s s'"
  by (auto simp: make_conf_publish_def check_call_def grows_def emit_def Let_def
      split: if_splits)

lemma make_conf_fetches_first:
  assumes "extdist_cache s = None" and "make_conf w name a f s = (r, s')"
  shows "grows (emit (Fetch ExtDistRepos) s) s'"
proof -
  obtain x s1 where rw: "rule_writes w f s = (x, s1)" by (cases "rule_writes w f s")
  obtain y t where g0: "get_extdist_repos w s = (y, t)" by (cases "get_extdist_repos w s")
  have t: "grows (emit (Fetch ExtDistRepos) s) t"
    using assms(1) g0
    by (auto simp: get_extdist_repos_def Let_def grows_def split: sum.splits)
  have g: "grows (emit (Fetch ExtDistRepos) s) s1"
  proof (cases y)
    case (Inl e)
    with rw g0 t show ?thesis by (simp add: rule_writes_def)
  next
    case (Inr data)
    obtain z s2 where rest: "run_rules (later_rules w f data) t = (z, s2)"
      by (cases "run_rules (later_rules w f data) t")
    then have "grows t s2" by (blast dest: only_fetches_later_rules only_fetches_grows)
    with t have "grows (emit (Fetch ExtDistRepos) s) s2" by (rule grows_trans)
    moreover from rw g0 Inr rest have "s1 = s2"
      by (auto simp: rule_writes_def split: sum.splits)
    ultimately show ?thesis by simp
  qed
  show ?thesis
  proof (cases x)
    case (Inl e)
    with assms(2) rw g show ?thesis by (simp add: make_conf_def)
  next
    case (Inr wss)
    with assms(2) rw have "make_conf_publish w name a (build_conf wss) s1 = (r, s')"
      by (simp add: make_conf_def)
    then have "grows s1 s'" by (rule grows_make_conf_publish)
    with g show ?thesis by (rule grows_trans)
  qed
qed

section \<open>The extension listing is fetched for every profile\<close>

text \<open>
  C9. Whatever its flags are, a call of \<^verbatim>\<open>make_conf\<close> that finds the cache of
  \<^verbatim>\<open>get_extdist_repos\<close> empty sends the request for the extension and skin listing before
  anything else. When that request fails, the call ends with its error: nothing is written,
  the cache stays empty, and this holds for the profiles \<^verbatim>\<open>core\<close> and \<^verbatim>\<open>pywikibot\<close>, whose
  rules never read the listing, as for any other; \<^verbatim>\<open>main\<close> ends with the same error at its
  first profile.
\<close>

theorem listing_failure_aborts_every_profile:
  assumes "extdist_cache s = None"
  shows
    "(\<exists>later. events (snd (make_conf w name a f s)) = events s @ Fetch ExtDistRepos # later) \<and>
     (\<forall>e. extdist_api w = Inl e \<longrightarrow>
        make_conf w name a f s = (Inl e, emit (Fetch ExtDistRepos) s) \<and>
        make_conf w ''core'' a (no_flags\<lparr>core := True\<rparr>) s = (Inl e, emit (Fetch ExtDistRepos) s) \<and>
        make_conf w ''pywikibot'' a (no_flags\<lparr>pywikibot := True\<rparr>) s
          = (Inl e, emit (Fetch ExtDistRepos) s) \<and>
        files (snd (make_conf w name a f s)) = files s \<and>
        extdist_cache (snd (make_conf w name a f s)) = None \<and>
        main w a s = (Inl e, emit (Fetch ExtDistRepos) s))"
proof (intro conjI allI impI)
  obtain r s' where m: "make_conf w name a f s = (r, s')" by (cases "make_conf w name a f s")
  with assms have "grows (emit (Fetch ExtDistRepos) s) s'" by (rule make_conf_fetches_first)
  with m show "\<exists>later. events (snd (make_conf w name a f s)) = events s @ Fetch ExtDistRepos # later"
    by (auto simp: grows_def emit_def)
next
  fix e
  assume fail: "extdist_api w = Inl e"
  have all: "make_conf w n a g s = (Inl e, emit (Fetch ExtDistRepos) s)" for n g
    using assms fail
    by (simp add: make_conf_def rule_writes_def get_extdist_repos_def Let_def)
  show "make_conf w name a f s = (Inl e, emit (Fetch ExtDistRepos) s)"
    and "make_conf w ''core'' a (no_flags\<lparr>core := True\<rparr>) s = (Inl e, emit (Fetch ExtDistRepos) s)"
    and "make_conf w ''pywikibot'' a (no_flags\<lparr>pywikibot := True\<rparr>) s
          = (Inl e, emit (Fetch ExtDistRepos) s)"
    by (rule all)+
  show "files (snd (make_conf w name a f s)) = files s"
    by (simp add: all emit_def)
  show "extdist_cache (snd (make_conf w name a f s)) = None"
    using assms by (simp add: all emit_def)
  show "main w a s = (Inl e, emit (Fetch ExtDistRepos) s)"
    by (simp add: main_def profiles_def all)
qed

text \<open>The theorem in the world where every request fails, from a fresh process.\<close>

theorem listing_failure_aborts_every_profile_witness:
  "make_conf offline ''core'' no_restart (no_flags\<lparr>core := True\<rparr>) fresh
     = (Inl (RemoteFetchError ''https://www.mediawiki.org/w/api.php''),
        emit (Fetch ExtDistRepos) fresh) \<and>
   main offline no_restart fresh
     = (Inl (RemoteFetchError ''https://www.mediawiki.org/w/api.php''),
        emit (Fetch ExtDistRepos) fresh)"
proof -
  have c: "extdist_cache fresh = None"
    by (simp add: fresh_def start_def)
  have e: "extdist_api offline = Inl (RemoteFetchError ''https://www.mediawiki.org/w/api.php'')"
    by (simp add: offline_def)
  from listing_failure_aborts_every_profile [OF c, of offline _ no_restart] e
  show ?thesis by blast
qed

section \<open>Publishing: the trace, the file and the result\<close>

lemma make_conf_publish_events:
  "events (snd (make_conf_publish w name a c s)) =
     events s
     @ (if DATA @ ''/'' @ dirname_of name \<in> dirs s then [] else [Mkdir (DATA @ ''/'' @ dirname_of name)])
     @ (if files s (dest_of name) = None then [] else [ReadFile (dest_of name)])
     @ [WriteFile (dest_of name)]
     @ (if restart a \<and> has_changed (files s (dest_of name)) c then
          Run [''systemctl'', ''status'', dirname_of name]
          # (if exit_code w [''systemctl'', ''status'', dirname_of name] = 0
             then [Run [''systemctl'', ''restart'', dirname_of name]] else [])
        else [])"
  by (simp add: make_conf_publish_def check_call_def emit_def Let_def dest_of_def)

lemma make_conf_publish_files:
  "files (snd (make_conf_publish w name a c s)) = (files s)(dest_of name \<mapsto> c)"
  by (simp add: make_conf_publish_def check_call_def emit_def Let_def dest_of_def)

lemma make_conf_publish_fst:
  "fst (make_conf_publish w name a c s) =
     (if restart a \<and> has_changed (files s (dest_of name)) c
         \<and> exit_code w [''systemctl'', ''status'', dirname_of name] = 0
         \<and> exit_code w [''systemctl'', ''restart'', dirname_of name] \<noteq> 0
      then Inl (CalledProcessError [''systemctl'', ''restart'', dirname_of name]
                 (exit_code w [''systemctl'', ''restart'', dirname_of name]))
      else Inr ())"
  by (simp add: make_conf_publish_def check_call_def emit_def Let_def dest_of_def)

lemma armchairgm_changed: "has_changed None (build_conf [armchairgm_writes])"
  by (simp add: has_changed_def old_urls_def extract_urls_def build_conf_def apply_writes_def
      armchairgm_writes_def)

text \<open>
  C3. Publishing a configuration \<open>c\<close> for a profile from the state \<open>s\<close> extends the trace by:
  the making of the directory when it is missing, the reading of the previous file when
  there is one, the writing of the new file, and then, only with \<^verbatim>\<open>--restart\<close> and only when
  the URLs of \<open>c\<close> differ from those of the file as it was in \<open>s\<close>, before the write,
  \<^verbatim>\<open>systemctl status\<close>, followed by \<^verbatim>\<open>systemctl restart\<close> only when the status command exits
  with 0. So the previous file is read before the new one is written, the new file is
  written whatever the flag is, and without \<^verbatim>\<open>--restart\<close>, with unchanged URLs, or with a
  status command that does not exit with 0, the restart command is not run and the
  publishing ends without an error.
\<close>

theorem publish_restart_decision:
  "events (snd (make_conf_publish w name a c s)) =
     events s
     @ (if DATA @ ''/'' @ dirname_of name \<in> dirs s then [] else [Mkdir (DATA @ ''/'' @ dirname_of name)])
     @ (if files s (dest_of name) = None then [] else [ReadFile (dest_of name)])
     @ [WriteFile (dest_of name)]
     @ (if restart a \<and> has_changed (files s (dest_of name)) c then
          Run [''systemctl'', ''status'', dirname_of name]
          # (if exit_code w [''systemctl'', ''status'', dirname_of name] = 0
             then [Run [''systemctl'', ''restart'', dirname_of name]] else [])
        else []) \<and>
   files (snd (make_conf_publish w name a c s)) (dest_of name) = Some c \<and>
   (\<not> restart a \<or> \<not> has_changed (files s (dest_of name)) c
      \<or> exit_code w [''systemctl'', ''status'', dirname_of name] \<noteq> 0 \<longrightarrow>
    Run [''systemctl'', ''restart'', dirname_of name]
      \<notin> set (drop (length (events s)) (events (snd (make_conf_publish w name a c s)))) \<and>
    fst (make_conf_publish w name a c s) = Inr ())"
proof (intro conjI impI)
  show "events (snd (make_conf_publish w name a c s)) =
     events s
     @ (if DATA @ ''/'' @ dirname_of name \<in> dirs s then [] else [Mkdir (DATA @ ''/'' @ dirname_of name)])
     @ (if files s (dest_of name) = None then [] else [ReadFile (dest_of name)])
     @ [WriteFile (dest_of name)]
     @ (if restart a \<and> has_changed (files s (dest_of name)) c then
          Run [''systemctl'', ''status'', dirname_of name]
          # (if exit_code w [''systemctl'', ''status'', dirname_of name] = 0
             then [Run [''systemctl'', ''restart'', dirname_of name]] else [])
        else [])"
    by (rule make_conf_publish_events)
  show "files (snd (make_conf_publish w name a c s)) (dest_of name) = Some c"
    by (simp add: make_conf_publish_files)
next
  assume no: "\<not> restart a \<or> \<not> has_changed (files s (dest_of name)) c
      \<or> exit_code w [''systemctl'', ''status'', dirname_of name] \<noteq> 0"
  then show "Run [''systemctl'', ''restart'', dirname_of name]
      \<notin> set (drop (length (events s)) (events (snd (make_conf_publish w name a c s))))"
    by (auto simp: make_conf_publish_events)
  from no show "fst (make_conf_publish w name a c s) = Inr ()"
    by (auto simp: make_conf_publish_fst)
qed

text \<open>
  The theorem for the profile \<^verbatim>\<open>armchairgm\<close> with \<^verbatim>\<open>--restart\<close>, no previous file, and a
  \<^verbatim>\<open>systemctl\<close> that exits with 4 (no such unit).
\<close>

theorem publish_restart_decision_witness:
  "events (snd (make_conf_publish (quiet\<lparr>exit_code := (\<lambda>cmd. 4)\<rparr>) ''armchairgm''
      \<lparr>restart = True\<rparr> (build_conf [armchairgm_writes]) fresh))
     = [Mkdir ''/srv/hound/hound-armchairgm'',
        WriteFile ''/srv/hound/hound-armchairgm/config.json'',
        Run [''systemctl'', ''status'', ''hound-armchairgm'']] \<and>
   files (snd (make_conf_publish (quiet\<lparr>exit_code := (\<lambda>cmd. 4)\<rparr>) ''armchairgm''
      \<lparr>restart = True\<rparr> (build_conf [armchairgm_writes]) fresh))
      ''/srv/hound/hound-armchairgm/config.json'' = Some (build_conf [armchairgm_writes]) \<and>
   fst (make_conf_publish (quiet\<lparr>exit_code := (\<lambda>cmd. 4)\<rparr>) ''armchairgm''
      \<lparr>restart = True\<rparr> (build_conf [armchairgm_writes]) fresh) = Inr ()"
  using publish_restart_decision [of "quiet\<lparr>exit_code := (\<lambda>cmd. 4)\<rparr>" "''armchairgm''"
      "\<lparr>restart = True\<rparr>" "build_conf [armchairgm_writes]" fresh]
    armchairgm_changed
  by (simp add: fresh_def start_def dest_of_def dirname_of_def DATA_def)

text \<open>
  C10. With \<^verbatim>\<open>--restart\<close> and changed URLs, the exit code of \<^verbatim>\<open>systemctl status\<close> alone
  decides: any exit code other than 0, whatever it stands for (a unit that is not loaded,
  or one that is loaded but inactive or failed), ends the publishing without an error and
  without the restart command; the restart command is run exactly when the status command
  exits with 0, and it is then the last command of the publishing.
\<close>

theorem status_exit_code_decides_restart:
  assumes "restart a" and "has_changed (files s (dest_of name)) c"
  shows
    "(exit_code w [''systemctl'', ''status'', dirname_of name] \<noteq> 0 \<longrightarrow>
        fst (make_conf_publish w name a c s) = Inr () \<and>
        Run [''systemctl'', ''restart'', dirname_of name]
          \<notin> set (drop (length (events s)) (events (snd (make_conf_publish w name a c s))))) \<and>
     (Run [''systemctl'', ''restart'', dirname_of name]
        \<in> set (drop (length (events s)) (events (snd (make_conf_publish w name a c s))))
      \<longleftrightarrow> exit_code w [''systemctl'', ''status'', dirname_of name] = 0) \<and>
     (\<exists>earlier. events (snd (make_conf_publish w name a c s)) =
        earlier @ Run [''systemctl'', ''status'', dirname_of name]
          # (if exit_code w [''systemctl'', ''status'', dirname_of name] = 0
             then [Run [''systemctl'', ''restart'', dirname_of name]] else []))"
proof (intro conjI impI)
  assume "exit_code w [''systemctl'', ''status'', dirname_of name] \<noteq> 0"
  then show "fst (make_conf_publish w name a c s) = Inr ()"
    by (simp add: make_conf_publish_fst)
next
  assume "exit_code w [''systemctl'', ''status'', dirname_of name] \<noteq> 0"
  then show "Run [''systemctl'', ''restart'', dirname_of name]
      \<notin> set (drop (length (events s)) (events (snd (make_conf_publish w name a c s))))"
    by (auto simp: make_conf_publish_events)
next
  show "Run [''systemctl'', ''restart'', dirname_of name]
        \<in> set (drop (length (events s)) (events (snd (make_conf_publish w name a c s))))
      \<longleftrightarrow> exit_code w [''systemctl'', ''status'', dirname_of name] = 0"
    using assms by (auto simp: make_conf_publish_events)
next
  show "\<exists>earlier. events (snd (make_conf_publish w name a c s)) =
        earlier @ Run [''systemctl'', ''status'', dirname_of name]
          # (if exit_code w [''systemctl'', ''status'', dirname_of name] = 0
             then [Run [''systemctl'', ''restart'', dirname_of name]] else [])"
    using assms
    by (simp only: make_conf_publish_events if_True simp_thms append_assoc [symmetric]) blast
qed

text \<open>
  The theorem for the profile \<^verbatim>\<open>armchairgm\<close>: a status command that exits with 3 (the unit
  is loaded but not active) skips the restart, one that exits with 0 leads to it.
\<close>

theorem status_exit_code_decides_restart_witness:
  "fst (make_conf_publish (quiet\<lparr>exit_code := (\<lambda>cmd. 3)\<rparr>) ''armchairgm''
      \<lparr>restart = True\<rparr> (build_conf [armchairgm_writes]) fresh) = Inr () \<and>
   Run [''systemctl'', ''restart'', ''hound-armchairgm'']
     \<notin> set (events (snd (make_conf_publish (quiet\<lparr>exit_code := (\<lambda>cmd. 3)\<rparr>) ''armchairgm''
          \<lparr>restart = True\<rparr> (build_conf [armchairgm_writes]) fresh))) \<and>
   Run [''systemctl'', ''restart'', ''hound-armchairgm'']
     \<in> set (events (snd (make_conf_publish quiet ''armchairgm''
          \<lparr>restart = True\<rparr> (build_conf [armchairgm_writes]) fresh)))"
proof -
  have r: "restart \<lparr>restart = True\<rparr>" by simp
  have h: "has_changed (files fresh (dest_of ''armchairgm'')) (build_conf [armchairgm_writes])"
    using armchairgm_changed by (simp add: fresh_def start_def)
  have e: "events fresh = []" by (simp add: fresh_def start_def)
  from status_exit_code_decides_restart [OF r h, of "quiet\<lparr>exit_code := (\<lambda>cmd. 3)\<rparr>"]
  have a: "fst (make_conf_publish (quiet\<lparr>exit_code := (\<lambda>cmd. 3)\<rparr>) ''armchairgm''
      \<lparr>restart = True\<rparr> (build_conf [armchairgm_writes]) fresh) = Inr () \<and>
   Run [''systemctl'', ''restart'', ''hound-armchairgm'']
     \<notin> set (events (snd (make_conf_publish (quiet\<lparr>exit_code := (\<lambda>cmd. 3)\<rparr>) ''armchairgm''
          \<lparr>restart = True\<rparr> (build_conf [armchairgm_writes]) fresh)))"
    by (simp add: e dirname_of_def)
  from status_exit_code_decides_restart [OF r h, of quiet]
  have b: "Run [''systemctl'', ''restart'', ''hound-armchairgm'']
     \<in> set (events (snd (make_conf_publish quiet ''armchairgm''
          \<lparr>restart = True\<rparr> (build_conf [armchairgm_writes]) fresh)))"
    by (simp add: e dirname_of_def quiet_def)
  from a b show ?thesis by simp
qed

section \<open>Evaluating a run\<close>

text \<open>The definitions that a run on an example world unfolds.\<close>

lemmas run_defs =
  make_conf_def rule_writes_def get_extdist_repos_def later_rules_def exts_rule_def
  skins_rule_def static_def bundled_rule_def wikimedia_rule_def services_rule_def
  libs_rule_def prefix_rule_def wmcs_rule_def parse_gitmodules_def settings_yaml_def
  bundled_repos_def wikimedia_deployed_repos_def gerrit_prefix_list_def
  make_conf_publish_def check_call_def emit_def Let_def start_def fresh_def no_restart_def
  no_flags_def active_repos_def dirname_of_def dest_of_def DATA_def

lemma empty_manifest: "resolve_manifest [] = Inr []"
  by (simp add: resolve_manifest_def read_string_def strip_def)

section \<open>The guard on an empty listing\<close>

text \<open>
  C4, as the claim states it, fails: with the skins rule enabled, a listing with no skin and
  an empty skins manifest give the profile \<^verbatim>\<open>skins\<close> without an error, and its configuration is
  written with no repository at all.
\<close>

theorem skins_listing_counterexample:
  "fst (make_conf quiet ''skins'' no_restart (no_flags\<lparr>skins := True\<rparr>) fresh) = Inr () \<and>
   files (snd (make_conf quiet ''skins'' no_restart (no_flags\<lparr>skins := True\<rparr>) fresh))
     ''/srv/hound/hound-skins/config.json''
     = Some \<lparr>max_concurrent_indexers = 2, dbpath = ''data'', detect_ref = True, repos = []\<rparr>"
  by (simp add: run_defs quiet_def empty_manifest build_conf_def apply_writes_def)

lemma skins_rule_empty_listing:
  "listed_skins data = Some [] \<Longrightarrow>
   skins_rule w f data t =
     (if skins f then
        (case parse_gitmodules w
           ''https://raw.githubusercontent.com/MWStake/nonwmf-skins/master/.gitmodules'' t of
           (Inl e, t1) \<Rightarrow> (Inl e, t1)
         | (Inr subs, t1) \<Rightarrow> (Inr subs, t1))
      else (Inr [], t))"
  by (simp add: skins_rule_def split: prod.splits sum.splits)

text \<open>
  C4, amended. Given the listing \<open>data\<close> that \<^verbatim>\<open>get_extdist_repos\<close> returned: when the
  extensions rule is enabled and the extensions sub-list is empty, \<^verbatim>\<open>make_conf\<close> ends with
  \<open>RuntimeError\<close> \<^verbatim>\<open>Why are there no Gerrit extensions?\<close>, whatever the skins sub-list holds
  and whether the skins rule is enabled or not, and no file has been touched; when the
  extensions rule is not enabled, the extensions sub-list is not looked at.
\<close>

theorem empty_listing_guard:
  assumes "get_extdist_repos w s = (Inr data, s1)"
  shows
    "(exts f \<and> listed_extensions data = Some [] \<longrightarrow>
        make_conf w name a f s
          = (Inl (RuntimeError ''Why are there no Gerrit extensions?''), s1) \<and>
        files s1 = files s) \<and>
     (\<not> exts f \<longrightarrow> exts_rule w f data s1 = (Inr [], s1))"
proof (intro conjI impI)
  assume "exts f \<and> listed_extensions data = Some []"
  with assms
  show "make_conf w name a f s = (Inl (RuntimeError ''Why are there no Gerrit extensions?''), s1)"
    by (simp add: make_conf_def rule_writes_def later_rules_def exts_rule_def)
  from assms show "files s1 = files s"
    by (blast dest: only_fetches_get_extdist_repos only_fetches_files)
next
  assume "\<not> exts f"
  then show "exts_rule w f data s1 = (Inr [], s1)"
    by (simp add: exts_rule_def)
qed

text \<open>
  The theorem in the world whose listing has no extension and no skin: the profile
  \<^verbatim>\<open>things\<close>, with both rules enabled, fails, and the extensions rule of the profile \<^verbatim>\<open>core\<close>
  does nothing.
\<close>

theorem empty_listing_guard_witness:
  "make_conf no_extensions ''things'' no_restart (no_flags\<lparr>exts := True, skins := True\<rparr>) fresh
     = (Inl (RuntimeError ''Why are there no Gerrit extensions?''),
        (emit (Fetch ExtDistRepos) fresh)
          \<lparr>extdist_cache := Some \<lparr>listed_extensions = Some [], listed_skins = Some []\<rparr>\<rparr>) \<and>
   exts_rule no_extensions (no_flags\<lparr>core := True\<rparr>)
       \<lparr>listed_extensions = Some [], listed_skins = Some []\<rparr>
       ((emit (Fetch ExtDistRepos) fresh)
          \<lparr>extdist_cache := Some \<lparr>listed_extensions = Some [], listed_skins = Some []\<rparr>\<rparr>)
     = (Inr [], (emit (Fetch ExtDistRepos) fresh)
          \<lparr>extdist_cache := Some \<lparr>listed_extensions = Some [], listed_skins = Some []\<rparr>\<rparr>)"
proof -
  let ?data = "\<lparr>listed_extensions = Some [], listed_skins = Some []\<rparr>"
  let ?s1 = "(emit (Fetch ExtDistRepos) fresh)\<lparr>extdist_cache := Some ?data\<rparr>"
  have g: "get_extdist_repos no_extensions fresh = (Inr ?data, ?s1)"
    by (simp add: get_extdist_repos_def no_extensions_def quiet_def fresh_def start_def Let_def)
  from empty_listing_guard [OF g, of "no_flags\<lparr>exts := True, skins := True\<rparr>" "''things''" no_restart]
  have a: "make_conf no_extensions ''things'' no_restart (no_flags\<lparr>exts := True, skins := True\<rparr>) fresh
     = (Inl (RuntimeError ''Why are there no Gerrit extensions?''), ?s1)"
    by (simp add: no_flags_def)
  from empty_listing_guard [OF g, of "no_flags\<lparr>core := True\<rparr>" "''core''" no_restart]
  have b: "exts_rule no_extensions (no_flags\<lparr>core := True\<rparr>) ?data ?s1 = (Inr [], ?s1)"
    by (simp add: no_flags_def)
  from a b show ?thesis by simp
qed

section \<open>A failure ends the run\<close>

lemma dest_of_inj: "dest_of n = dest_of m \<longleftrightarrow> n = m"
  by (simp add: dest_of_def dirname_of_def)

lemma make_conf_files:
  assumes "make_conf w name a f s = (r, s')"
  shows "files s' = files s \<or> (\<exists>c. files s' = (files s)(dest_of name \<mapsto> c))"
proof -
  obtain x s1 where rw: "rule_writes w f s = (x, s1)" by (cases "rule_writes w f s")
  then have f1: "files s1 = files s"
    by (blast dest: only_fetches_rule_writes only_fetches_files)
  show ?thesis
  proof (cases x)
    case (Inl e)
    with assms rw f1 show ?thesis by (simp add: make_conf_def)
  next
    case (Inr wss)
    with assms rw have "make_conf_publish w name a (build_conf wss) s1 = (r, s')"
      by (simp add: make_conf_def)
    then have "s' = snd (make_conf_publish w name a (build_conf wss) s1)" by simp
    then have "files s' = (files s1)(dest_of name \<mapsto> build_conf wss)"
      by (simp add: make_conf_publish_files)
    with f1 show ?thesis by auto
  qed
qed

lemma make_conf_files_other:
  "make_conf w name a f s = (r, s') \<Longrightarrow> p \<noteq> dest_of name \<Longrightarrow> files s' p = files s p"
  by (drule make_conf_files) auto

lemma make_conf_files_kept:
  "make_conf w name a f s = (r, s') \<Longrightarrow> files s p \<noteq> None \<Longrightarrow> files s' p \<noteq> None"
  by (drule make_conf_files) auto

lemma make_conf_files_written:
  assumes "make_conf w name a f s = (Inr u, s')"
  shows "files s' (dest_of name) \<noteq> None"
proof -
  obtain x s1 where rw: "rule_writes w f s = (x, s1)" by (cases "rule_writes w f s")
  with assms obtain wss where "x = Inr wss"
    by (cases x) (auto simp: make_conf_def)
  with assms rw have "make_conf_publish w name a (build_conf wss) s1 = (Inr u, s')"
    by (simp add: make_conf_def)
  then have "s' = snd (make_conf_publish w name a (build_conf wss) s1)" by simp
  then show ?thesis by (simp add: make_conf_publish_files)
qed

lemma run_profiles_append:
  "run_profiles w a (xs @ ys) s =
     (case run_profiles w a xs s of
        (Inl e, s1) \<Rightarrow> (Inl e, s1)
      | (Inr u, s1) \<Rightarrow> run_profiles w a ys s1)"
proof (induction xs arbitrary: s)
  case Nil
  show ?case by simp
next
  case (Cons x xs)
  obtain n f where x: "x = (n, f)" by (cases x)
  show ?case
    unfolding x by (simp add: Cons.IH split: prod.splits sum.splits)
qed

lemma run_profiles_files_other:
  "run_profiles w a ps s = (r, s') \<Longrightarrow> p \<notin> dest_of ` fst ` set ps \<Longrightarrow> files s' p = files s p"
proof (induction ps arbitrary: s)
  case Nil
  then show ?case by simp
next
  case (Cons x ps)
  obtain n f where x: "x = (n, f)" by (cases x)
  obtain y s1 where m: "make_conf w n a f s = (y, s1)" by (cases "make_conf w n a f s")
  from Cons.prems(2) x have p: "p \<noteq> dest_of n" and rest: "p \<notin> dest_of ` fst ` set ps"
    by auto
  from m p have f1: "files s1 p = files s p" by (rule make_conf_files_other)
  show ?case
  proof (cases y)
    case (Inl e)
    with Cons.prems(1) x m f1 show ?thesis by simp
  next
    case (Inr u)
    with Cons.prems(1) x m have "run_profiles w a ps s1 = (r, s')" by simp
    then have "files s' p = files s1 p" using rest by (rule Cons.IH)
    with f1 show ?thesis by simp
  qed
qed

lemma run_profiles_files_kept:
  "run_profiles w a ps s = (r, s') \<Longrightarrow> files s p \<noteq> None \<Longrightarrow> files s' p \<noteq> None"
proof (induction ps arbitrary: s)
  case Nil
  then show ?case by simp
next
  case (Cons x ps)
  obtain n f where x: "x = (n, f)" by (cases x)
  obtain y s1 where m: "make_conf w n a f s = (y, s1)" by (cases "make_conf w n a f s")
  from m Cons.prems(2) have f1: "files s1 p \<noteq> None" by (rule make_conf_files_kept)
  show ?case
  proof (cases y)
    case (Inl e)
    with Cons.prems(1) x m f1 show ?thesis by simp
  next
    case (Inr u)
    with Cons.prems(1) x m have "run_profiles w a ps s1 = (r, s')" by simp
    then show ?thesis using f1 by (rule Cons.IH)
  qed
qed

lemma run_profiles_files_written:
  "run_profiles w a ps s = (Inr u, s') \<Longrightarrow> n \<in> fst ` set ps \<Longrightarrow> files s' (dest_of n) \<noteq> None"
proof (induction ps arbitrary: s)
  case Nil
  then show ?case by simp
next
  case (Cons x ps)
  obtain m f where x: "x = (m, f)" by (cases x)
  obtain y s1 where mc: "make_conf w m a f s = (y, s1)" by (cases "make_conf w m a f s")
  with Cons.prems(1) x obtain v where y: "y = Inr v"
    by (cases y) auto
  with Cons.prems(1) x mc have rest: "run_profiles w a ps s1 = (Inr u, s')" by simp
  show ?case
  proof (cases "n \<in> fst ` set ps")
    case True
    with rest show ?thesis by (rule Cons.IH)
  next
    case False
    with Cons.prems(2) x have "n = m" by auto
    with mc y have "files s1 (dest_of n) \<noteq> None"
      by (auto dest: make_conf_files_written)
    with rest show ?thesis by (rule run_profiles_files_kept)
  qed
qed

text \<open>
  C1, as the claim states it, fails. In the world whose listing has no extension, the first
  profile of \<^verbatim>\<open>main\<close>, \<^verbatim>\<open>search\<close>, raises the \<open>RuntimeError\<close> of the empty listing; \<^verbatim>\<open>main\<close>
  ends with that error, and the configuration of the next profile, \<^verbatim>\<open>core\<close>, is never
  written, although \<^verbatim>\<open>make_conf\<close> for \<^verbatim>\<open>core\<close> succeeds when it is called in the state that
  \<^verbatim>\<open>main\<close> left.
\<close>

theorem isolation_counterexample:
  "fst (main no_extensions no_restart fresh)
     = Inl (RuntimeError ''Why are there no Gerrit extensions?'') \<and>
   files (snd (main no_extensions no_restart fresh)) ''/srv/hound/hound-core/config.json'' = None \<and>
   fst (make_conf no_extensions ''core'' no_restart (no_flags\<lparr>core := True\<rparr>)
          (snd (main no_extensions no_restart fresh))) = Inr ()"
  by (simp add: main_def profiles_def run_defs no_extensions_def quiet_def)

text \<open>
  C1, amended. No fatal condition is caught at the boundary of a profile. When the calls of
  \<^verbatim>\<open>make_conf\<close> for the profiles \<open>earlier\<close> have returned and the call for the next profile
  ends with an error \<open>e\<close>, then the run of the whole list, and \<^verbatim>\<open>main\<close> when the list is its
  list of profiles, ends with \<open>e\<close> in the state in which that call ended: the profiles
  queued behind it are not processed. The configuration files of the earlier profiles
  exist; the configuration file of every other profile but the failing one is as it was
  before the run.
\<close>

theorem failure_ends_the_run:
  assumes "run_profiles w a earlier s = (Inr (), s1)"
    and "make_conf w name a f s1 = (Inl e, s2)"
  shows
    "run_profiles w a (earlier @ (name, f) # queued) s = (Inl e, s2) \<and>
     (profiles = earlier @ (name, f) # queued \<longrightarrow> main w a s = (Inl e, s2)) \<and>
     (\<forall>n \<in> fst ` set earlier. files s2 (dest_of n) \<noteq> None) \<and>
     (\<forall>n. n \<notin> fst ` set earlier \<and> n \<noteq> name \<longrightarrow> files s2 (dest_of n) = files s (dest_of n))"
proof (intro conjI impI ballI allI)
  show run: "run_profiles w a (earlier @ (name, f) # queued) s = (Inl e, s2)"
    using assms by (simp add: run_profiles_append)
  assume "profiles = earlier @ (name, f) # queued"
  with run show "main w a s = (Inl e, s2)"
    by (simp add: main_def)
next
  fix n
  assume "n \<in> fst ` set earlier"
  with assms(1) have "files s1 (dest_of n) \<noteq> None"
    by (rule run_profiles_files_written)
  with assms(2) show "files s2 (dest_of n) \<noteq> None"
    by (rule make_conf_files_kept)
next
  fix n
  assume n: "n \<notin> fst ` set earlier \<and> n \<noteq> name"
  then have "dest_of n \<notin> dest_of ` fst ` set earlier"
    by (force simp: dest_of_inj)
  with assms(1) have a: "files s1 (dest_of n) = files s (dest_of n)"
    by (rule run_profiles_files_other)
  from n have "dest_of n \<noteq> dest_of name" by (simp add: dest_of_inj)
  with assms(2) have "files s2 (dest_of n) = files s1 (dest_of n)"
    by (rule make_conf_files_other)
  with a show "files s2 (dest_of n) = files s (dest_of n)" by simp
qed

text \<open>
  The theorem on four consecutive profiles of \<^verbatim>\<open>main\<close> in the world whose listing has no
  extension: \<^verbatim>\<open>core\<close> and \<^verbatim>\<open>pywikibot\<close> are processed, \<^verbatim>\<open>extensions\<close> fails, \<^verbatim>\<open>skins\<close> is
  not processed.
\<close>

theorem failure_ends_the_run_witness:
  "fst (run_profiles no_extensions no_restart
      [(''core'', no_flags\<lparr>core := True\<rparr>), (''pywikibot'', no_flags\<lparr>pywikibot := True\<rparr>),
       (''extensions'', no_flags\<lparr>exts := True\<rparr>), (''skins'', no_flags\<lparr>skins := True\<rparr>)] fresh)
     = Inl (RuntimeError ''Why are there no Gerrit extensions?'') \<and>
   files (snd (run_profiles no_extensions no_restart
      [(''core'', no_flags\<lparr>core := True\<rparr>), (''pywikibot'', no_flags\<lparr>pywikibot := True\<rparr>),
       (''extensions'', no_flags\<lparr>exts := True\<rparr>), (''skins'', no_flags\<lparr>skins := True\<rparr>)] fresh))
     (dest_of ''pywikibot'') \<noteq> None \<and>
   files (snd (run_profiles no_extensions no_restart
      [(''core'', no_flags\<lparr>core := True\<rparr>), (''pywikibot'', no_flags\<lparr>pywikibot := True\<rparr>),
       (''extensions'', no_flags\<lparr>exts := True\<rparr>), (''skins'', no_flags\<lparr>skins := True\<rparr>)] fresh))
     (dest_of ''skins'') = None"
proof -
  let ?earlier = "[(''core'', no_flags\<lparr>core := True\<rparr>), (''pywikibot'', no_flags\<lparr>pywikibot := True\<rparr>)]"
  let ?s1 = "snd (run_profiles no_extensions no_restart ?earlier fresh)"
  let ?s2 = "snd (make_conf no_extensions ''extensions'' no_restart (no_flags\<lparr>exts := True\<rparr>) ?s1)"
  have "fst (run_profiles no_extensions no_restart ?earlier fresh) = Inr ()"
    by (simp add: run_defs no_extensions_def quiet_def)
  then have h1: "run_profiles no_extensions no_restart ?earlier fresh = (Inr (), ?s1)"
    by (simp add: prod_eq_iff)
  have "fst (make_conf no_extensions ''extensions'' no_restart (no_flags\<lparr>exts := True\<rparr>) ?s1)
      = Inl (RuntimeError ''Why are there no Gerrit extensions?'')"
    by (simp add: run_defs no_extensions_def quiet_def)
  then have h2: "make_conf no_extensions ''extensions'' no_restart (no_flags\<lparr>exts := True\<rparr>) ?s1
      = (Inl (RuntimeError ''Why are there no Gerrit extensions?''), ?s2)"
    by (simp add: prod_eq_iff)
  have none: "files fresh (dest_of ''skins'') = None"
    by (simp add: fresh_def start_def)
  from failure_ends_the_run [OF h1 h2, of "[(''skins'', no_flags\<lparr>skins := True\<rparr>)]"] none
  show ?thesis
    by simp
qed

section \<open>The last write wins\<close>

lemma map_of_apply_writes:
  "map_of (apply_writes ws rs) n =
     (case map_of (rev ws) n of Some d \<Rightarrow> Some d | None \<Rightarrow> map_of rs n)"
proof (induction ws arbitrary: rs)
  case Nil
  show ?case by (simp add: apply_writes_def)
next
  case (Cons x ws)
  obtain k v where x: "x = (k, v)" by (cases x)
  have "apply_writes (x # ws) rs = apply_writes ws (AList.update k v rs)"
    by (simp add: apply_writes_def x)
  then show ?case
    by (simp add: Cons.IH x update_conv' map_add_def split: option.splits)
qed

lemma run_rules_length: "run_rules rs s = (Inr wss, s') \<Longrightarrow> length wss = length rs"
proof (induction rs arbitrary: s wss s')
  case Nil
  then show ?case by simp
next
  case (Cons r rs)
  then show ?case
    by (auto split: prod.splits sum.splits)
qed

lemma rule_writes_length: "rule_writes w f s = (Inr wss, s') \<Longrightarrow> length wss = 20"
  by (auto simp: rule_writes_def later_rules_def split: prod.splits sum.splits
      dest!: run_rules_length)

lemma last_write_wins:
  assumes "map_of (rev ws) n = Some d" and "n \<notin> fst ` set (concat later)"
  shows "map_of (repos (build_conf (earlier @ ws # later))) n = Some d"
proof -
  have "map_of (rev (concat later)) n = None"
    using assms(2) by (simp add: map_of_eq_None_iff)
  with assms(1) show ?thesis
    by (simp add: build_conf_def map_of_apply_writes map_add_def split: option.splits)
qed

lemma third_party_manifests:
  "resolve_manifest (''[a]'' @ [CHR 0x0A] @ ''url = https://github.com/org/repo.git'' @ [CHR 0x0A])
     = Inr [(''org/repo'', gh_repo ''org/repo'' ''github.com'')]"
  "resolve_manifest (''[b]'' @ [CHR 0x0A] @ ''url = https://gitlab.com/org/repo.git'' @ [CHR 0x0A])
     = Inr [(''org/repo'', gitlab_repo ''org/repo'')]"
  by code_simp+

text \<open>
  C8. Let the rules of a profile have run, and let \<open>ws\<close> be the writes of one rule, the rules
  before it having made the writes \<open>earlier\<close> and the rules after it the writes \<open>later\<close>, one
  list for each of the twenty rules in the order of the source. If the rule's last
  descriptor for a display name is \<open>d\<close> and no later rule writes that name, then the entry of
  that name in the built configuration, and in the configuration file that \<^verbatim>\<open>make_conf\<close>
  writes, is \<open>d\<close>, whatever the earlier rules wrote under that name. (For the name
  \<^verbatim>\<open>Wikimedia MediaWiki config\<close>, \<open>ws\<close> is the list of the rule \<^verbatim>\<open>wikimedia\<close> and the rule
  \<^verbatim>\<open>operations\<close> is among the earlier ones.)
\<close>

theorem later_rule_wins:
  assumes "rule_writes w f s = (Inr (earlier @ ws # later), s1)"
    and "map_of (rev ws) n = Some d"
    and "n \<notin> fst ` set (concat later)"
  shows
    "length (earlier @ ws # later) = 20 \<and>
     map_of (repos (build_conf (earlier @ ws # later))) n = Some d \<and>
     (\<exists>c. files (snd (make_conf w name a f s)) (dest_of name) = Some c \<and>
          map_of (repos c) n = Some d)"
proof (intro conjI)
  from assms(1) show "length (earlier @ ws # later) = 20"
    by (rule rule_writes_length)
  from assms(2,3) show win: "map_of (repos (build_conf (earlier @ ws # later))) n = Some d"
    by (rule last_write_wins)
  have "make_conf w name a f s = make_conf_publish w name a (build_conf (earlier @ ws # later)) s1"
    using assms(1) by (simp add: make_conf_def)
  then have "files (snd (make_conf w name a f s)) (dest_of name)
      = Some (build_conf (earlier @ ws # later))"
    by (simp add: make_conf_publish_files)
  with win show "\<exists>c. files (snd (make_conf w name a f s)) (dest_of name) = Some c \<and>
      map_of (repos c) n = Some d"
    by blast
qed

text \<open>
  The theorem for the profile \<^verbatim>\<open>things\<close>, where the manifest of the extensions gives
  \<^verbatim>\<open>org/repo\<close> the descriptor of GitHub and the manifest of the skins, read by the later
  rule, gives the same name the descriptor of GitLab.
\<close>

theorem later_rule_wins_witness:
  "(\<exists>c. files (snd (make_conf third_party ''things'' no_restart
                     (no_flags\<lparr>exts := True, skins := True\<rparr>) fresh)) (dest_of ''things'') = Some c \<and>
        map_of (repos c) ''org/repo'' = Some (gitlab_repo ''org/repo'')) \<and>
   gh_repo ''org/repo'' ''github.com'' \<noteq> gitlab_repo ''org/repo''"
proof -
  let ?f = "no_flags\<lparr>exts := True, skins := True\<rparr>"
  let ?exts = "[(''Extension:Foo'', repo_info ''mediawiki/extensions/Foo''),
      (''VisualEditor core'', repo_info ''VisualEditor/VisualEditor''),
      (''org/repo'', gh_repo ''org/repo'' ''github.com'')]"
  let ?skins = "[(''org/repo'', gitlab_repo ''org/repo'')]"
  let ?later = "[[], [], [], [], [], [], [], [], [], [], [], [], [], [], []] :: writes list"
  have "fst (rule_writes third_party ?f fresh) = Inr ([[], [], [], ?exts] @ ?skins # ?later)"
    by (simp add: run_defs third_party_def quiet_def third_party_manifests [simplified])
  then have h1: "rule_writes third_party ?f fresh
      = (Inr ([[], [], [], ?exts] @ ?skins # ?later), snd (rule_writes third_party ?f fresh))"
    by (simp add: prod_eq_iff)
  have h2: "map_of (rev ?skins) ''org/repo'' = Some (gitlab_repo ''org/repo'')"
    by simp
  have h3: "''org/repo'' \<notin> fst ` set (concat ?later)"
    by simp
  have differ: "gh_repo ''org/repo'' ''github.com'' \<noteq> gitlab_repo ''org/repo''"
    by (simp add: gitlab_repo_def gh_repo_def)
  from later_rule_wins [OF h1 h2 h3, of "''things''" no_restart] differ
  show ?thesis by blast
qed

section \<open>The Gerrit listings are fetched again for every profile\<close>

lemma fetch_count_emit:
  "fetch_count q (emit ev s) = fetch_count q s + (if ev = Fetch q then 1 else 0)"
  by (simp add: fetch_count_def emit_def)

lemma fetch_count_caches:
  "fetch_count q (s\<lparr>extdist_cache := x\<rparr>) = fetch_count q s"
  "fetch_count q (s\<lparr>gitmodules_cache := y\<rparr>) = fetch_count q s"
  "fetch_count q (s\<lparr>settings_cache := z\<rparr>) = fetch_count q s"
  by (simp_all add: fetch_count_def)

lemmas fetch_count_base = fetch_count_emit fetch_count_caches

text \<open>
  The three cached queries answer a second call from the cache, without a request;
  \<^verbatim>\<open>gerrit_prefix_list\<close> sends its request again.
\<close>

lemma get_extdist_repos_cached:
  "get_extdist_repos w s = (Inr data, s1) \<Longrightarrow> get_extdist_repos w s1 = (Inr data, s1)"
  by (auto simp: get_extdist_repos_def Let_def emit_def split: option.splits sum.splits)

lemma parse_gitmodules_cached:
  "parse_gitmodules w u s = (Inr rs, s1) \<Longrightarrow> parse_gitmodules w u s1 = (Inr rs, s1)"
  by (auto simp: parse_gitmodules_def Let_def emit_def split: option.splits sum.splits)

lemma settings_yaml_cached:
  "settings_yaml w s = (Inr d, s1) \<Longrightarrow> settings_yaml w s1 = (Inr d, s1)"
  by (auto simp: settings_yaml_def Let_def emit_def split: option.splits sum.splits)

lemma gerrit_prefix_list_not_cached:
  "events (snd (gerrit_prefix_list w p (snd (gerrit_prefix_list w p s))))
     = events s @ [Fetch (GerritProjects p), Fetch (GerritProjects p)]"
  by (simp add: gerrit_prefix_list_def Let_def emit_def split: sum.splits)

lemma gerrit_count_get_extdist_repos:
  "get_extdist_repos w s = (r, s') \<Longrightarrow>
   fetch_count (GerritProjects p) s' = fetch_count (GerritProjects p) s"
  by (auto simp: get_extdist_repos_def Let_def fetch_count_base split: option.splits sum.splits)

lemma gerrit_count_parse_gitmodules:
  "parse_gitmodules w u s = (r, s') \<Longrightarrow>
   fetch_count (GerritProjects p) s' = fetch_count (GerritProjects p) s"
  by (auto simp: parse_gitmodules_def Let_def fetch_count_base split: option.splits sum.splits)

lemma gerrit_count_settings_yaml:
  "settings_yaml w s = (r, s') \<Longrightarrow>
   fetch_count (GerritProjects p) s' = fetch_count (GerritProjects p) s"
  by (auto simp: settings_yaml_def Let_def fetch_count_base split: option.splits sum.splits)

lemma gerrit_count_gerrit_prefix_list:
  "gerrit_prefix_list w p' s = (r, s') \<Longrightarrow>
   fetch_count (GerritProjects p) s'
     = fetch_count (GerritProjects p) s + (if p' = p then 1 else 0)"
  by (auto simp: gerrit_prefix_list_def Let_def fetch_count_base split: option.splits sum.splits)

lemma gerrit_count_bundled_repos:
  "bundled_repos w s = (r, s') \<Longrightarrow>
   fetch_count (GerritProjects p) s' = fetch_count (GerritProjects p) s"
  by (auto simp: bundled_repos_def split: prod.splits option.splits sum.splits
      dest: gerrit_count_settings_yaml)

lemma gerrit_count_wikimedia_deployed_repos:
  "wikimedia_deployed_repos w s = (r, s') \<Longrightarrow>
   fetch_count (GerritProjects p) s' = fetch_count (GerritProjects p) s"
  by (auto simp: wikimedia_deployed_repos_def split: prod.splits option.splits sum.splits
      dest: gerrit_count_settings_yaml)

lemma gerrit_count_static:
  "static b ws s = (r, s') \<Longrightarrow>
   fetch_count (GerritProjects p) s' = fetch_count (GerritProjects p) s"
  by (auto simp: static_def)

lemma gerrit_count_exts_rule:
  "exts_rule w f data s = (r, s') \<Longrightarrow>
   fetch_count (GerritProjects p) s' = fetch_count (GerritProjects p) s"
  by (auto simp: exts_rule_def split: if_splits prod.splits option.splits sum.splits
      dest: gerrit_count_parse_gitmodules)

lemma gerrit_count_skins_rule:
  "skins_rule w f data s = (r, s') \<Longrightarrow>
   fetch_count (GerritProjects p) s' = fetch_count (GerritProjects p) s"
  by (auto simp: skins_rule_def split: if_splits prod.splits option.splits sum.splits
      dest: gerrit_count_parse_gitmodules)

lemma gerrit_count_bundled_rule:
  "bundled_rule w f s = (r, s') \<Longrightarrow>
   fetch_count (GerritProjects p) s' = fetch_count (GerritProjects p) s"
  by (auto simp: bundled_rule_def split: if_splits prod.splits option.splits sum.splits
      dest: gerrit_count_bundled_repos)

lemma gerrit_count_wikimedia_rule:
  "wikimedia_rule w f s = (r, s') \<Longrightarrow>
   fetch_count (GerritProjects p) s' = fetch_count (GerritProjects p) s"
  by (auto simp: wikimedia_rule_def split: if_splits prod.splits option.splits sum.splits
      dest: gerrit_count_wikimedia_deployed_repos)

lemma services_count_services_rule:
  "services_rule w f s = (r, s') \<Longrightarrow>
   fetch_count (GerritProjects ''mediawiki/services/'') s'
     = fetch_count (GerritProjects ''mediawiki/services/'') s + (if services f then 1 else 0)"
  by (auto simp: services_rule_def split: if_splits prod.splits option.splits sum.splits
      dest!: gerrit_count_gerrit_prefix_list [where p = "''mediawiki/services/''"])

lemma services_count_libs_rule:
  "libs_rule w f s = (r, s') \<Longrightarrow>
   fetch_count (GerritProjects ''mediawiki/services/'') s'
     = fetch_count (GerritProjects ''mediawiki/services/'') s"
  by (auto simp: libs_rule_def split: if_splits prod.splits option.splits sum.splits
      dest!: gerrit_count_gerrit_prefix_list [where p = "''mediawiki/services/''"])

lemma gerrit_count_prefix_rule:
  "prefix_rule w b p' s = (r, s') \<Longrightarrow> p' \<noteq> p \<Longrightarrow>
   fetch_count (GerritProjects p) s' = fetch_count (GerritProjects p) s"
  by (auto simp: prefix_rule_def split: if_splits
      dest!: gerrit_count_gerrit_prefix_list [where p = p])

lemma services_count_prefix_rule:
  "prefix_rule w b ''analytics/'' s = (r, s') \<Longrightarrow>
   fetch_count (GerritProjects ''mediawiki/services/'') s'
     = fetch_count (GerritProjects ''mediawiki/services/'') s"
  "prefix_rule w b ''schemas/event/'' s = (r, s') \<Longrightarrow>
   fetch_count (GerritProjects ''mediawiki/services/'') s'
     = fetch_count (GerritProjects ''mediawiki/services/'') s"
  by (erule gerrit_count_prefix_rule, simp)+

lemma services_count_wmcs_rule:
  "wmcs_rule w f s = (r, s') \<Longrightarrow>
   fetch_count (GerritProjects ''mediawiki/services/'') s'
     = fetch_count (GerritProjects ''mediawiki/services/'') s"
  by (auto simp: wmcs_rule_def split: if_splits prod.splits option.splits sum.splits
      dest!: gerrit_count_gerrit_prefix_list [where p = "''mediawiki/services/''"])

lemma run_rules_fetch_count:
  "list_all2 (\<lambda>r d. \<forall>t x t'. r t = (x, t') \<longrightarrow> fetch_count q t' = fetch_count q t + d) rs ds \<Longrightarrow>
   run_rules rs s = (Inr wss, s') \<Longrightarrow> fetch_count q s' = fetch_count q s + sum_list ds"
proof (induction rs arbitrary: ds s wss s')
  case Nil
  then show ?case by simp
next
  case (Cons r rs)
  from Cons.prems(1) obtain d ds' where ds: "ds = d # ds'"
    and r: "\<forall>t x t'. r t = (x, t') \<longrightarrow> fetch_count q t' = fetch_count q t + d"
    and rest: "list_all2 (\<lambda>r d. \<forall>t x t'. r t = (x, t') \<longrightarrow> fetch_count q t' = fetch_count q t + d) rs ds'"
    by (auto simp: list_all2_Cons1)
  obtain x s1 where rs1: "r s = (x, s1)" by (cases "r s")
  with r have c1: "fetch_count q s1 = fetch_count q s + d" by simp
  from Cons.prems(2) rs1 obtain ws wss' where "x = Inr ws"
    and run: "run_rules rs s1 = (Inr wss', s')"
    by (auto split: sum.splits prod.splits)
  from rest run have "fetch_count q s' = fetch_count q s1 + sum_list ds'"
    by (rule Cons.IH)
  with c1 ds show ?case by simp
qed

lemma services_count_later_rules:
  assumes "run_rules (later_rules w f data) s = (Inr wss, s')"
  shows "fetch_count (GerritProjects ''mediawiki/services/'') s'
     = fetch_count (GerritProjects ''mediawiki/services/'') s + (if services f then 1 else 0)"
proof -
  have "list_all2 (\<lambda>r d. \<forall>t x t'. r t = (x, t') \<longrightarrow>
          fetch_count (GerritProjects ''mediawiki/services/'') t'
            = fetch_count (GerritProjects ''mediawiki/services/'') t + d)
        (later_rules w f data)
        [0, 0, 0, 0, 0, 0, 0, 0, 0, 0, 0, if services f then 1 else 0, 0, 0, 0, 0, 0]"
    unfolding later_rules_def
    by (auto dest: gerrit_count_static gerrit_count_exts_rule gerrit_count_skins_rule
        gerrit_count_bundled_rule gerrit_count_wikimedia_rule services_count_services_rule
        services_count_libs_rule services_count_prefix_rule services_count_wmcs_rule)
  from this assms
  have "fetch_count (GerritProjects ''mediawiki/services/'') s'
     = fetch_count (GerritProjects ''mediawiki/services/'') s
       + sum_list [0, 0, 0, 0, 0, 0, 0, 0, 0, 0, 0, if services f then 1 else 0, 0, 0, 0, 0, 0]"
    by (rule run_rules_fetch_count)
  then show ?thesis by simp
qed

lemma services_count_rule_writes:
  assumes "rule_writes w f s = (Inr wss, s')"
  shows "fetch_count (GerritProjects ''mediawiki/services/'') s'
     = fetch_count (GerritProjects ''mediawiki/services/'') s + (if services f then 1 else 0)"
proof -
  obtain y t where g: "get_extdist_repos w s = (y, t)" by (cases "get_extdist_repos w s")
  then have c: "fetch_count (GerritProjects ''mediawiki/services/'') t
      = fetch_count (GerritProjects ''mediawiki/services/'') s"
    by (rule gerrit_count_get_extdist_repos)
  from assms g obtain data wss' where "y = Inr data"
    and "run_rules (later_rules w f data) t = (Inr wss', s')"
    by (auto simp: rule_writes_def split: sum.splits prod.splits)
  then have "fetch_count (GerritProjects ''mediawiki/services/'') s'
     = fetch_count (GerritProjects ''mediawiki/services/'') t + (if services f then 1 else 0)"
    by (simp add: services_count_later_rules)
  with c show ?thesis by simp
qed

lemma gerrit_count_make_conf_publish:
  "fetch_count (GerritProjects p) (snd (make_conf_publish w name a c s))
     = fetch_count (GerritProjects p) s"
  by (simp add: fetch_count_def make_conf_publish_events)

lemma services_count_make_conf:
  assumes "make_conf w name a f s = (Inr u, s')"
  shows "fetch_count (GerritProjects ''mediawiki/services/'') s'
     = fetch_count (GerritProjects ''mediawiki/services/'') s + (if services f then 1 else 0)"
proof -
  obtain x s1 where rw: "rule_writes w f s = (x, s1)" by (cases "rule_writes w f s")
  with assms obtain wss where x: "x = Inr wss"
    by (cases x) (auto simp: make_conf_def)
  with rw have c: "fetch_count (GerritProjects ''mediawiki/services/'') s1
     = fetch_count (GerritProjects ''mediawiki/services/'') s + (if services f then 1 else 0)"
    by (simp add: services_count_rule_writes)
  from assms rw x have "s' = snd (make_conf_publish w name a (build_conf wss) s1)"
    by (simp add: make_conf_def)
  with c show ?thesis by (simp add: gerrit_count_make_conf_publish)
qed

lemma services_count_run_profiles:
  "run_profiles w a ps s = (Inr u, s') \<Longrightarrow>
   fetch_count (GerritProjects ''mediawiki/services/'') s'
     = fetch_count (GerritProjects ''mediawiki/services/'') s
       + length (filter (\<lambda>(name, f). services f) ps)"
proof (induction ps arbitrary: s)
  case Nil
  then show ?case by simp
next
  case (Cons x ps)
  obtain n f where x: "x = (n, f)" by (cases x)
  obtain y s1 where m: "make_conf w n a f s = (y, s1)" by (cases "make_conf w n a f s")
  with Cons.prems x obtain v where y: "y = Inr v" and rest: "run_profiles w a ps s1 = (Inr u, s')"
    by (cases y) auto
  from m y have "fetch_count (GerritProjects ''mediawiki/services/'') s1
     = fetch_count (GerritProjects ''mediawiki/services/'') s + (if services f then 1 else 0)"
    by (simp add: services_count_make_conf)
  with Cons.IH [OF rest] x show ?case by simp
qed

lemma services_profiles: "length (filter (\<lambda>(name, f). services f) profiles) = 3"
  by (simp add: profiles_def no_flags_def)

lemma main_fetches_services_listing_thrice:
  "main w a s = (Inr u, s') \<Longrightarrow>
   fetch_count (GerritProjects ''mediawiki/services/'') s'
     = fetch_count (GerritProjects ''mediawiki/services/'') s + 3"
  by (simp add: main_def services_count_run_profiles services_profiles)

text \<open>
  C5. The claim fails on the code for the Gerrit prefix listings: \<^verbatim>\<open>gerrit_prefix_list\<close> has no
  cache. When the calls of \<^verbatim>\<open>make_conf\<close> for a list of profiles have all returned, the request
  for the prefix \<^verbatim>\<open>mediawiki/services/\<close> has been sent once for every profile of the list
  whose services rule is enabled; \<^verbatim>\<open>main\<close> has three such profiles
  (\<open>services_profiles\<close>), so a run of \<^verbatim>\<open>main\<close> that returns has sent it three times
  (\<open>main_fetches_services_listing_thrice\<close>).
\<close>

theorem gerrit_listing_fetched_for_every_profile:
  assumes "run_profiles w a ps s = (Inr (), s')"
  shows "fetch_count (GerritProjects ''mediawiki/services/'') s'
     = fetch_count (GerritProjects ''mediawiki/services/'') s
       + length (filter (\<lambda>(name, f). services f) ps)"
  using assms by (rule services_count_run_profiles)

text \<open>
  The theorem on two consecutive profiles of \<^verbatim>\<open>main\<close>, \<^verbatim>\<open>deployed\<close> and \<^verbatim>\<open>services\<close>, in the
  world where every service answers: the listing is fetched twice.
\<close>

theorem gerrit_listing_fetched_for_every_profile_witness:
  "fetch_count (GerritProjects ''mediawiki/services/'')
     (snd (run_profiles quiet no_restart
        [(''deployed'', no_flags\<lparr>core := True, wikimedia := True, vendor := True, services := True\<rparr>),
         (''services'', no_flags\<lparr>services := True\<rparr>)] fresh)) = 2"
proof -
  let ?ps = "[(''deployed'', no_flags\<lparr>core := True, wikimedia := True, vendor := True, services := True\<rparr>),
         (''services'', no_flags\<lparr>services := True\<rparr>)]"
  have "fst (run_profiles quiet no_restart ?ps fresh) = Inr ()"
    by (simp add: run_defs quiet_def)
  then have h: "run_profiles quiet no_restart ?ps fresh
      = (Inr (), snd (run_profiles quiet no_restart ?ps fresh))"
    by (simp add: prod_eq_iff)
  have z: "fetch_count (GerritProjects ''mediawiki/services/'') fresh = 0"
    by (simp add: fetch_count_def fresh_def start_def)
  from gerrit_listing_fetched_for_every_profile [OF h] z
  show ?thesis by (simp add: no_flags_def)
qed


end
